theory Spec2Isabelle
  imports Complex_Main "HOL-Library.Word"
begin

section \<open>Data model\<close>

text \<open>
  A \<^verbatim>\<open>Uint8Array\<close> is a list of 8-bit words. Buffers are modelled by value: the two
  module-level pools (\<^verbatim>\<open>pixelBufferPool\<close>, \<^verbatim>\<open>tempCanvasPool\<close>) only recycle storage
  whose content is overwritten before it is read, so they do not appear in the model.
\<close>

type_synonym bytes = "8 word list"

text \<open>\<^verbatim>\<open>interface FrameData\<close> of the export module.\<close>

record FrameData =
  frameData :: bytes
  frameIndex :: nat
  isRawPixels :: bool

text \<open>One entry of the \<^verbatim>\<open>exportConfig\<close> table inside \<^verbatim>\<open>handleExport\<close>.\<close>

record ExportConfig =
  frameRate :: nat
  frameCaptureSize :: nat
  compressionQuality :: rat
  writeBatchSize :: nat
  skipFrameOptimization :: bool
  useRawPixels :: bool
  exportResolution :: rat

definition fast :: ExportConfig where
  "fast = \<lparr>frameRate = 24, frameCaptureSize = 30, compressionQuality = 1/2,
     writeBatchSize = 20, skipFrameOptimization = True, useRawPixels = True,
     exportResolution = 3/4\<rparr>"

definition balanced :: ExportConfig where
  "balanced = \<lparr>frameRate = 30, frameCaptureSize = 20, compressionQuality = 7/10,
     writeBatchSize = 15, skipFrameOptimization = False, useRawPixels = True,
     exportResolution = 1\<rparr>"

definition quality :: ExportConfig where
  "quality = \<lparr>frameRate = 30, frameCaptureSize = 10, compressionQuality = 9/10,
     writeBatchSize = 8, skipFrameOptimization = False, useRawPixels = False,
     exportResolution = 1\<rparr>"

text \<open>\<^verbatim>\<open>exportConfig[settings.exportQuality] || exportConfig.balanced\<close>\<close>

definition exportConfig :: "string \<Rightarrow> ExportConfig" where
  "exportConfig q =
     (if q = ''fast'' then fast
      else if q = ''balanced'' then balanced
      else if q = ''quality'' then quality
      else balanced)"

text \<open>Everything the export can throw. The numbers are the 1-based frame numbers of the
  messages (\<^verbatim>\<open>frame ${frameIndex + 1}\<close>).\<close>

datatype error =
    EmptyPixelData nat nat
  | InvalidStateError
  | IndexSizeError
  | ConvertToPNGFailed
  | WebGLReadFailed
  | ExtractThrew
  | InvalidPixelDataType
  | PixelExtractionFailed nat
  | FrameCaptureFailed nat error
  | AllocationFailed
  | RangeError
  | WriteFileFailed
  | PixiAppNotAvailable
  | FFmpegLoadFailed
  | FetchFileFailed
  | ExecFailed
  | ReadFileFailed
  | DeleteFileFailed
  | NullReference

datatype warning =
    PixelSizeMismatch nat nat nat nat
  | ResolutionMismatchHint

section \<open>The platform\<close>

text \<open>
  What \<^verbatim>\<open>renderer.extract.pixels(pixiApp.stage)\<close> hands back for a frame: a
  \<^verbatim>\<open>Uint8Array\<close>, a \<^verbatim>\<open>Uint8ClampedArray\<close>, \<^verbatim>\<open>null\<close>/\<^verbatim>\<open>undefined\<close>, or an
  exception. Results that are plain objects are not modelled.
\<close>

datatype ExtractResult = U8 bytes | Clamped bytes | Nullish | Throws

text \<open>The files of the encoder's in-memory file system: \<^verbatim>\<open>frame${n}.png\<close>,
  \<^verbatim>\<open>raw_video.rgba\<close>, \<^verbatim>\<open>audio.mp3\<close>, \<^verbatim>\<open>output.mp4\<close>.\<close>

datatype fileName = FramePng nat | RawVideoRgba | AudioMp3 | OutputMp4

type_synonym files = "fileName \<rightharpoonup> bytes"

text \<open>The argument list handed to \<^verbatim>\<open>ffmpeg.exec\<close>: the frame rate, the input (raw video
  of a given size, or the numbered PNG sequence), the audio input with its loop flag and
  bit rate, and the x264 preset.\<close>

datatype inputFormat = RawVideo nat nat | PngSequence

record FFmpegArgs =
  argFramerate :: nat
  argInput :: inputFormat
  argAudio :: "(bool \<times> string) option"
  argPreset :: string

text \<open>
  The answers of the browser, the renderer and the encoder that the export code cannot
  compute itself.
  \<^item> \<open>webgl\<close>: \<^verbatim>\<open>gl && useWebGLCapture\<close>;
  \<^item> \<open>readPixels i\<close>: the bytes \<^verbatim>\<open>gl.readPixels\<close> stores for frame \<open>i\<close> (position to byte),
    or \<open>None\<close> when the call throws;
  \<^item> \<open>extractPixels i\<close>: the renderer's own extraction for frame \<open>i\<close>;
  \<^item> \<open>resample\<close>: byte \<open>k\<close> of the image that \<^verbatim>\<open>drawImage\<close> scales from the source;
  \<^item> \<open>toBlob\<close>: the PNG encoder of a canvas, \<open>None\<close> for a \<^verbatim>\<open>null\<close> blob;
  \<^item> \<open>allocate n\<close>: whether \<^verbatim>\<open>new Uint8Array(n)\<close> gets its memory;
  \<^item> \<open>ffmpegLoad\<close>, \<open>writeFile\<close>, \<open>deleteFile\<close>: whether these calls of the encoder resolve;
  \<^item> \<open>fetchFile\<close>: the bytes of the audio track, \<open>None\<close> when the fetch rejects;
  \<^item> \<open>exec\<close>: the encoded video for an argument list and a file system, \<open>None\<close> when
    the encoder fails.
\<close>

record Platform =
  webgl :: bool
  readPixels :: "nat \<Rightarrow> (nat \<Rightarrow> 8 word) option"
  extractPixels :: "nat \<Rightarrow> ExtractResult"
  resample :: "bytes \<Rightarrow> nat \<Rightarrow> nat \<Rightarrow> nat \<Rightarrow> nat \<Rightarrow> nat \<Rightarrow> 8 word"
  toBlob :: "bytes \<Rightarrow> nat \<Rightarrow> nat \<Rightarrow> rat \<Rightarrow> bytes option"
  allocate :: "nat \<Rightarrow> bool"
  ffmpegLoad :: bool
  writeFile :: "fileName \<Rightarrow> bytes \<Rightarrow> bool"
  deleteFile :: "fileName \<Rightarrow> bool"
  fetchFile :: "bytes option"
  exec :: "FFmpegArgs \<Rightarrow> files \<Rightarrow> bytes option"

text \<open>
  \<^verbatim>\<open>new ImageData(data, sw, sh)\<close> as the HTML Standard defines the constructor: the
  length must be a nonzero multiple of four, the pixel count a multiple of \<open>sw\<close>, and the
  row count equal to \<open>sh\<close>.
\<close>

definition newImageData :: "bytes \<Rightarrow> nat \<Rightarrow> nat \<Rightarrow> error + bytes" where
  "newImageData d sw sh =
     (if length d = 0 \<or> length d mod 4 \<noteq> 0 then Inl InvalidStateError
      else if sw = 0 \<or> (length d div 4) mod sw \<noteq> 0 then Inl IndexSizeError
      else if (length d div 4) div sw \<noteq> sh then Inl IndexSizeError
      else Inr d)"

section \<open>Pixel transcoder\<close>

text \<open>The validation at the head of \<^verbatim>\<open>convertRGBAToPNG\<close>: the thrown error, if any, and
  the warnings written to the console.\<close>

definition validatePixelData :: "bytes \<Rightarrow> nat \<Rightarrow> nat \<Rightarrow> warning list \<times> (error + unit)" where
  "validatePixelData pixels width height =
     (let expectedSize = width * height * 4 in
      if length pixels = 0 then ([], Inl (EmptyPixelData width height))
      else if length pixels \<noteq> expectedSize
        then ([PixelSizeMismatch expectedSize width height (length pixels),
               ResolutionMismatchHint], Inr ())
      else ([], Inr ()))"

text \<open>The rest of \<^verbatim>\<open>convertRGBAToPNG\<close>: \<^verbatim>\<open>ImageData\<close>, \<^verbatim>\<open>putImageData\<close>, \<^verbatim>\<open>toBlob\<close>.\<close>

definition encodePNG :: "Platform \<Rightarrow> bytes \<Rightarrow> nat \<Rightarrow> nat \<Rightarrow> rat \<Rightarrow> error + bytes" where
  "encodePNG P pixels width height q =
     (case newImageData pixels width height of
        Inl e \<Rightarrow> Inl e
      | Inr imageData \<Rightarrow>
          (case toBlob P imageData width height q of
             None \<Rightarrow> Inl ConvertToPNGFailed
           | Some blob \<Rightarrow> Inr blob))"

definition convertRGBAToPNG ::
  "Platform \<Rightarrow> bytes \<Rightarrow> nat \<Rightarrow> nat \<Rightarrow> rat \<Rightarrow> warning list \<times> (error + bytes)" where
  "convertRGBAToPNG P pixels width height q =
     (case validatePixelData pixels width height of
        (ws, Inl e) \<Rightarrow> (ws, Inl e)
      | (ws, Inr _) \<Rightarrow> (ws, encodePNG P pixels width height q))"

text \<open>\<^verbatim>\<open>downsamplePixels\<close>: the source goes through an \<^verbatim>\<open>ImageData\<close> onto a canvas, is drawn
  scaled onto a second canvas, and \<^verbatim>\<open>getImageData(0, 0, targetWidth, targetHeight)\<close> reads
  \<open>targetWidth * targetHeight * 4\<close> bytes back (it throws on an empty rectangle).\<close>

definition downsamplePixels ::
  "Platform \<Rightarrow> bytes \<Rightarrow> nat \<Rightarrow> nat \<Rightarrow> nat \<Rightarrow> nat \<Rightarrow> error + bytes" where
  "downsamplePixels P sourcePixels sourceWidth sourceHeight targetWidth targetHeight =
     (case newImageData sourcePixels sourceWidth sourceHeight of
        Inl e \<Rightarrow> Inl e
      | Inr _ \<Rightarrow>
          if targetWidth = 0 \<or> targetHeight = 0 then Inl IndexSizeError
          else Inr (map (resample P sourcePixels sourceWidth sourceHeight targetWidth targetHeight)
                      [0..<targetWidth * targetHeight * 4]))"

section \<open>Frame extraction\<close>

text \<open>\<^verbatim>\<open>Math.floor(actualCanvasWidth * config.exportResolution)\<close>\<close>

definition exportDim :: "nat \<Rightarrow> ExportConfig \<Rightarrow> nat" where
  "exportDim actual config = nat \<lfloor>of_nat actual * exportResolution config\<rfloor>"

text \<open>Method 1, the body of the inner \<^verbatim>\<open>try\<close>: read at canvas resolution, downsample when
  the export resolution is below one.\<close>

definition webglRead ::
  "Platform \<Rightarrow> ExportConfig \<Rightarrow> nat \<Rightarrow> nat \<Rightarrow> nat \<Rightarrow> nat \<Rightarrow> nat \<Rightarrow> error + bytes" where
  "webglRead P config actualCanvasWidth actualCanvasHeight exportWidth exportHeight i =
     (case readPixels P i of
        None \<Rightarrow> Inl WebGLReadFailed
      | Some px \<Rightarrow>
          (let fullPixelCount = actualCanvasWidth * actualCanvasHeight * 4;
               fullPixelBuffer = map px [0..<fullPixelCount]
           in if exportResolution config < 1
              then downsamplePixels P fullPixelBuffer actualCanvasWidth actualCanvasHeight
                     exportWidth exportHeight
              else Inr fullPixelBuffer))"

text \<open>The fallback in the \<^verbatim>\<open>catch (webglError)\<close> branch: the result is cast, not checked.
  \<open>None\<close> stands for \<^verbatim>\<open>null\<close>.\<close>

fun extractCast :: "ExtractResult \<Rightarrow> error + bytes option" where
  "extractCast (U8 b) = Inr (Some b)"
| "extractCast (Clamped b) = Inr (Some b)"
| "extractCast Nullish = Inr None"
| "extractCast Throws = Inl ExtractThrew"

text \<open>Method 2: the result is probed and converted to a \<^verbatim>\<open>Uint8Array\<close>.\<close>

fun extractProbe :: "ExtractResult \<Rightarrow> error + bytes option" where
  "extractProbe (U8 b) = Inr (Some b)"
| "extractProbe (Clamped b) = Inr (Some b)"
| "extractProbe Nullish = Inl InvalidPixelDataType"
| "extractProbe Throws = Inl ExtractThrew"

definition extractFramePixels ::
  "Platform \<Rightarrow> ExportConfig \<Rightarrow> nat \<Rightarrow> nat \<Rightarrow> nat \<Rightarrow> nat \<Rightarrow> nat \<Rightarrow> error + bytes option" where
  "extractFramePixels P config actualCanvasWidth actualCanvasHeight exportWidth exportHeight i =
     (if webgl P then
        (case webglRead P config actualCanvasWidth actualCanvasHeight exportWidth exportHeight i of
           Inr pixels \<Rightarrow> Inr (Some pixels)
         | Inl webglError \<Rightarrow> extractCast (extractPixels P i))
      else extractProbe (extractPixels P i))"

text \<open>One task of a batch: the \<^verbatim>\<open>async\<close> closure pushed onto \<^verbatim>\<open>batchPromises\<close>, with its
  \<^verbatim>\<open>try\<close>/\<^verbatim>\<open>catch\<close> that rethrows every failure as a capture failure of that frame.\<close>

definition captureFrame ::
  "Platform \<Rightarrow> ExportConfig \<Rightarrow> nat \<Rightarrow> nat \<Rightarrow> nat \<Rightarrow> nat \<Rightarrow> nat \<Rightarrow> error + FrameData" where
  "captureFrame P config actualCanvasWidth actualCanvasHeight exportWidth exportHeight i =
     (case extractFramePixels P config actualCanvasWidth actualCanvasHeight
             exportWidth exportHeight i of
        Inl e \<Rightarrow> Inl (FrameCaptureFailed (i + 1) e)
      | Inr None \<Rightarrow> Inl (FrameCaptureFailed (i + 1) (PixelExtractionFailed (i + 1)))
      | Inr (Some pixels) \<Rightarrow>
          if length pixels = 0
          then Inl (FrameCaptureFailed (i + 1) (PixelExtractionFailed (i + 1)))
          else if useRawPixels config
          then Inr \<lparr>frameData = pixels, frameIndex = i, isRawPixels = True\<rparr>
          else
            (case snd (convertRGBAToPNG P pixels exportWidth exportHeight
                         (compressionQuality config)) of
               Inl e \<Rightarrow> Inl (FrameCaptureFailed (i + 1) e)
             | Inr png \<Rightarrow> Inr \<lparr>frameData = png, frameIndex = i, isRawPixels = False\<rparr>))"

section \<open>Batch scheduler\<close>

text \<open>\<^verbatim>\<open>Promise.all\<close>: the results in the order of the promises, whatever the order in which
  they settle, or a rejection. When several tasks reject, the model reports the one of
  the lowest position.\<close>

fun promiseAll :: "(error + 'a) list \<Rightarrow> error + 'a list" where
  "promiseAll [] = Inr []"
| "promiseAll (Inl e # ps) = Inl e"
| "promiseAll (Inr x # ps) = (case promiseAll ps of Inl e \<Rightarrow> Inl e | Inr xs \<Rightarrow> Inr (x # xs))"

text \<open>The reclamation at the end of a batch. The texture collector and \<^verbatim>\<open>window.gc\<close> do
  not touch \<^verbatim>\<open>allFrames\<close>; the loop over \<open>clearStartFrame..<clearEndFrame\<close> replaces the
  payload of the records at these positions by an empty array.\<close>

definition clearFrame :: "nat \<Rightarrow> FrameData list \<Rightarrow> FrameData list" where
  "clearFrame i allFrames =
     (if i < length allFrames then allFrames[i := (allFrames ! i)\<lparr>frameData := []\<rparr>]
      else allFrames)"

definition reclaim :: "nat \<Rightarrow> nat \<Rightarrow> FrameData list \<Rightarrow> FrameData list" where
  "reclaim batchIndex batchSize allFrames =
     (if batchIndex mod 2 = 0 \<and> batchIndex > 0 then
        (if batchIndex > 6 then
           (let clearIndex = batchIndex - 6;
                clearStartFrame = clearIndex * batchSize;
                clearEndFrame = min (clearStartFrame + batchSize) (length allFrames)
            in fold clearFrame [clearStartFrame..<clearEndFrame] allFrames)
         else allFrames)
      else allFrames)"

text \<open>The \<^verbatim>\<open>for (let batchIndex = 0; batchIndex < batches; batchIndex++)\<close> loop, over the
  batch indices still to run.\<close>

fun captureBatches ::
  "(nat \<Rightarrow> error + FrameData) \<Rightarrow> nat \<Rightarrow> nat \<Rightarrow> nat list \<Rightarrow> FrameData list
     \<Rightarrow> error + FrameData list" where
  "captureBatches task frameCount batchSize [] allFrames = Inr allFrames"
| "captureBatches task frameCount batchSize (batchIndex # rest) allFrames =
     (let batchStartFrame = batchIndex * batchSize;
          batchEndFrame = min (batchStartFrame + batchSize) frameCount;
          currentBatchSize = batchEndFrame - batchStartFrame;
          batchPromises = map (\<lambda>i. task (batchStartFrame + i)) [0..<currentBatchSize]
      in case promiseAll batchPromises of
           Inl e \<Rightarrow> Inl e
         | Inr batchResults \<Rightarrow>
             captureBatches task frameCount batchSize rest
               (reclaim batchIndex batchSize (allFrames @ batchResults)))"

text \<open>\<^verbatim>\<open>Math.ceil(frameCount / batchSize)\<close> for a positive batch size.\<close>

definition ceilDiv :: "nat \<Rightarrow> nat \<Rightarrow> nat" where
  "ceilDiv a b = (a + b - 1) div b"

definition captureAll :: "(nat \<Rightarrow> error + FrameData) \<Rightarrow> nat \<Rightarrow> nat \<Rightarrow> error + FrameData list" where
  "captureAll task frameCaptureSize' frameCount =
     (let batchSize = min frameCaptureSize' frameCount;
          batches = ceilDiv frameCount batchSize
      in captureBatches task frameCount batchSize [0..<batches] [])"

text \<open>\<^verbatim>\<open>allFrames.sort((a, b) => a.frameIndex - b.frameIndex)\<close>, a stable sort.\<close>

definition sortFrames :: "FrameData list \<Rightarrow> FrameData list" where
  "sortFrames allFrames = sort_key frameIndex allFrames"

text \<open>The capture stage of \<^verbatim>\<open>handleExport\<close>: batch loop, then the sort.\<close>

definition captureStage ::
  "Platform \<Rightarrow> ExportConfig \<Rightarrow> nat \<Rightarrow> nat \<Rightarrow> nat \<Rightarrow> error + FrameData list" where
  "captureStage P config actualCanvasWidth actualCanvasHeight frameCount =
     (let exportWidth = exportDim actualCanvasWidth config;
          exportHeight = exportDim actualCanvasHeight config
      in case captureAll
                (captureFrame P config actualCanvasWidth actualCanvasHeight exportWidth exportHeight)
                (frameCaptureSize config) frameCount of
           Inl e \<Rightarrow> Inl e
         | Inr allFrames \<Rightarrow> Inr (sortFrames allFrames))"

section \<open>Transport strategy and write stage\<close>

text \<open>\<^verbatim>\<open>(framePixelCount * frameCount) / (1024 * 1024 * 1024)\<close>. The product is an integer
  below \<open>2\<^sup>5\<^sup>3\<close> for every canvas a browser can create, and the divisor is a
  power of two, so the floating-point quotient is the exact rational.\<close>

definition totalMemoryGB :: "nat \<Rightarrow> nat \<Rightarrow> rat" where
  "totalMemoryGB framePixelCount frameCount =
     of_nat (framePixelCount * frameCount) / (1024 * 1024 * 1024)"

text \<open>\<^verbatim>\<open>allFrames.slice(i, batchEnd)\<close>\<close>

definition slice :: "nat \<Rightarrow> nat \<Rightarrow> 'a list \<Rightarrow> 'a list" where
  "slice i j xs = take (j - i) (drop i xs)"

text \<open>One batch of the PNG conversion, \<^verbatim>\<open>Promise.all(writePromises)\<close>: every frame of the
  batch is converted from its payload and written as \<^verbatim>\<open>frame${frameIndex + 1}.png\<close>. The
  tasks are run in order up to the first one that throws.\<close>

fun convertAndWrite :: "Platform \<Rightarrow> nat \<Rightarrow> nat \<Rightarrow> FrameData list \<Rightarrow> files \<Rightarrow> error + files" where
  "convertAndWrite P exportWidth exportHeight [] fs = Inr fs"
| "convertAndWrite P exportWidth exportHeight (frame # batchFrames) fs =
     (case snd (convertRGBAToPNG P (frameData frame) exportWidth exportHeight 85) of
        Inl e \<Rightarrow> Inl e
      | Inr pngData \<Rightarrow>
          if writeFile P (FramePng (frameIndex frame + 1)) pngData
          then convertAndWrite P exportWidth exportHeight batchFrames
                 (fs(FramePng (frameIndex frame + 1) \<mapsto> pngData))
          else Inl WriteFileFailed)"

text \<open>The loop \<^verbatim>\<open>for (let i = 0; i < allFrames.length; i += writeBatchSize)\<close> of the
  conversion, over the start positions still to run. It is the same loop in the branch
  taken for a large video and in the \<^verbatim>\<open>catch (memoryError)\<close> branch.\<close>

fun pngFallback ::
  "Platform \<Rightarrow> nat \<Rightarrow> nat \<Rightarrow> nat \<Rightarrow> FrameData list \<Rightarrow> nat list \<Rightarrow> files \<Rightarrow> error + files" where
  "pngFallback P exportWidth exportHeight writeBatchSize' allFrames [] fs = Inr fs"
| "pngFallback P exportWidth exportHeight writeBatchSize' allFrames (i # starts) fs =
     (let batchEnd = min (i + writeBatchSize') (length allFrames);
          batchFrames = slice i batchEnd allFrames
      in case convertAndWrite P exportWidth exportHeight batchFrames fs of
           Inl e \<Rightarrow> Inl e
         | Inr fs' \<Rightarrow> pngFallback P exportWidth exportHeight writeBatchSize' allFrames starts fs')"

text \<open>The start positions \<open>0, writeBatchSize, 2 * writeBatchSize, \<dots>\<close> below \<open>n\<close>, for a
  positive step (every preset has one).\<close>

definition batchStarts :: "nat \<Rightarrow> nat \<Rightarrow> nat list" where
  "batchStarts n step = map (\<lambda>k. k * step) [0..<ceilDiv n step]"

text \<open>\<^verbatim>\<open>target.set(source, offset)\<close> of a typed array: a \<^verbatim>\<open>RangeError\<close> when the source
  does not fit behind the offset.\<close>

definition setAt :: "bytes \<Rightarrow> bytes \<Rightarrow> nat \<Rightarrow> error + bytes" where
  "setAt target source offset =
     (if offset + length source > length target then Inl RangeError
      else Inr (take offset target @ source @ drop (offset + length source) target))"

text \<open>The inner loop of the concatenation, \<^verbatim>\<open>for (let i = chunkStart; i < chunkEnd; i++)\<close>:
  the frame is looked up by its index; a frame that is not found is passed over. The test
  \<^verbatim>\<open>frame.frameData\<close> is true of every array, an empty one included.\<close>

fun copyFrames :: "FrameData list \<Rightarrow> nat \<Rightarrow> nat list \<Rightarrow> bytes \<Rightarrow> error + bytes" where
  "copyFrames allFrames framePixelCount [] rawVideoData = Inr rawVideoData"
| "copyFrames allFrames framePixelCount (i # rest) rawVideoData =
     (case find (\<lambda>f. frameIndex f = i) allFrames of
        None \<Rightarrow> copyFrames allFrames framePixelCount rest rawVideoData
      | Some frame \<Rightarrow>
          (case setAt rawVideoData (frameData frame) (i * framePixelCount) of
             Inl e \<Rightarrow> Inl e
           | Inr rawVideoData' \<Rightarrow> copyFrames allFrames framePixelCount rest rawVideoData'))"

text \<open>The outer loop, \<^verbatim>\<open>for (let chunkIndex = 0; chunkIndex < chunks; chunkIndex++)\<close>.\<close>

fun copyChunks ::
  "FrameData list \<Rightarrow> nat \<Rightarrow> nat \<Rightarrow> nat \<Rightarrow> nat list \<Rightarrow> bytes \<Rightarrow> error + bytes" where
  "copyChunks allFrames framePixelCount frameCount chunkSize [] rawVideoData = Inr rawVideoData"
| "copyChunks allFrames framePixelCount frameCount chunkSize (chunkIndex # rest) rawVideoData =
     (let chunkStart = chunkIndex * chunkSize;
          chunkEnd = min (chunkStart + chunkSize) frameCount
      in case copyFrames allFrames framePixelCount [chunkStart..<chunkEnd] rawVideoData of
           Inl e \<Rightarrow> Inl e
         | Inr rawVideoData' \<Rightarrow>
             copyChunks allFrames framePixelCount frameCount chunkSize rest rawVideoData')"

text \<open>The concatenation on a zero-filled buffer of \<open>framePixelCount * frameCount\<close> bytes.\<close>

definition concatFrames :: "FrameData list \<Rightarrow> nat \<Rightarrow> nat \<Rightarrow> error + bytes" where
  "concatFrames allFrames framePixelCount frameCount =
     (let chunkSize = min 100 frameCount;
          chunks = ceilDiv frameCount chunkSize
      in copyChunks allFrames framePixelCount frameCount chunkSize [0..<chunks]
           (replicate (framePixelCount * frameCount) 0))"

text \<open>The body of the \<^verbatim>\<open>try\<close> of the raw pipeline: allocation, concatenation, and the
  write of \<^verbatim>\<open>raw_video.rgba\<close>.\<close>

definition rawPipeline :: "Platform \<Rightarrow> FrameData list \<Rightarrow> nat \<Rightarrow> nat \<Rightarrow> files \<Rightarrow> error + files" where
  "rawPipeline P allFrames framePixelCount frameCount fs =
     (if \<not> allocate P (framePixelCount * frameCount) then Inl AllocationFailed
      else case concatFrames allFrames framePixelCount frameCount of
             Inl e \<Rightarrow> Inl e
           | Inr rawVideoData \<Rightarrow>
               if writeFile P RawVideoRgba rawVideoData
               then Inr (fs(RawVideoRgba \<mapsto> rawVideoData))
               else Inl WriteFileFailed)"

text \<open>PNG mode: the payloads are PNG files already and are written under the name of
  their position, \<^verbatim>\<open>frame${i + batchIndex + 1}.png\<close>.\<close>

fun writeBatch :: "Platform \<Rightarrow> nat \<Rightarrow> FrameData list \<Rightarrow> files \<Rightarrow> error + files" where
  "writeBatch P n [] fs = Inr fs"
| "writeBatch P n (frame # batch) fs =
     (if writeFile P (FramePng (n + 1)) (frameData frame)
      then writeBatch P (n + 1) batch (fs(FramePng (n + 1) \<mapsto> frameData frame))
      else Inl WriteFileFailed)"

fun pngMode :: "Platform \<Rightarrow> nat \<Rightarrow> FrameData list \<Rightarrow> nat list \<Rightarrow> files \<Rightarrow> error + files" where
  "pngMode P writeBatchSize' allFrames [] fs = Inr fs"
| "pngMode P writeBatchSize' allFrames (i # starts) fs =
     (let batch = slice i (i + writeBatchSize') allFrames
      in case writeBatch P i batch fs of
           Inl e \<Rightarrow> Inl e
         | Inr fs' \<Rightarrow> pngMode P writeBatchSize' allFrames starts fs')"

text \<open>The write stage of \<^verbatim>\<open>handleExport\<close>. The result is the value of
  \<^verbatim>\<open>useRawPixelPipeline\<close> together with the file system.\<close>

definition writeStage ::
  "Platform \<Rightarrow> ExportConfig \<Rightarrow> nat \<Rightarrow> nat \<Rightarrow> nat \<Rightarrow> FrameData list \<Rightarrow> files
     \<Rightarrow> error + bool \<times> files" where
  "writeStage P config exportWidth exportHeight frameCount allFrames fs =
     (let writeBatchSize' = writeBatchSize config;
          originalRawPixelMode = (length allFrames > 0 \<and> isRawPixels (hd allFrames));
          starts = batchStarts (length allFrames) writeBatchSize'
      in if originalRawPixelMode then
           (let framePixelCount = exportWidth * exportHeight * 4
            in if totalMemoryGB framePixelCount frameCount > 3/2 then
                 (case pngFallback P exportWidth exportHeight writeBatchSize' allFrames starts fs of
                    Inl e \<Rightarrow> Inl e
                  | Inr fs' \<Rightarrow> Inr (False, fs'))
               else
                 (case rawPipeline P allFrames framePixelCount frameCount fs of
                    Inr fs' \<Rightarrow> Inr (True, fs')
                  | Inl memoryError \<Rightarrow>
                      (case pngFallback P exportWidth exportHeight writeBatchSize' allFrames
                              starts fs of
                         Inl e \<Rightarrow> Inl e
                       | Inr fs' \<Rightarrow> Inr (False, fs'))))
         else
           (case pngMode P writeBatchSize' allFrames starts fs of
              Inl e \<Rightarrow> Inl e
            | Inr fs' \<Rightarrow> Inr (False, fs')))"

section \<open>The canvas component\<close>

text \<open>A display object with the \<^verbatim>\<open>_originalVisible\<close> property that \<^verbatim>\<open>setExportMode\<close>
  attaches to it; \<open>None\<close> is \<^verbatim>\<open>undefined\<close>.\<close>

record Sprite =
  visible :: bool
  originalVisible :: "bool option"

text \<open>
  The state behind \<^verbatim>\<open>PixiCanvasRef\<close>: the application (\<^verbatim>\<open>appRef.current\<close>), the layers
  and effect sprites the component holds in refs (\<open>None\<close> when the ref is \<^verbatim>\<open>null\<close>), the
  stage's filter chain (\<open>None\<close> is \<^verbatim>\<open>null\<close>) with its saved copy \<^verbatim>\<open>_originalFilters\<close>, and
  the ticker. The properties of the ticker are plain fields: a write stores the value.
\<close>

record Canvas =
  appPresent :: bool
  effectsLayer :: "Sprite option"
  haze :: "Sprite option"
  grain :: "Sprite option"
  backgroundCacheAsBitmap :: "bool option"
  exportMode :: bool
  stageFilters :: "nat list option"
  originalFilters :: "nat list option option"
  tickerStarted :: bool
  maxFPS :: nat
  minFPS :: nat
  canvasWidth :: nat
  canvasHeight :: nat

definition saveVisible :: "Sprite \<Rightarrow> Sprite" where
  "saveVisible s = s\<lparr>originalVisible := Some (visible s), visible := False\<rparr>"

definition restoreVisible :: "Sprite \<Rightarrow> Sprite" where
  "restoreVisible s =
     (case originalVisible s of
        None \<Rightarrow> s
      | Some v \<Rightarrow> s\<lparr>visible := v, originalVisible := None\<rparr>)"

text \<open>\<^verbatim>\<open>setExportMode\<close> of \<^verbatim>\<open>PixiCanvas.tsx\<close>.\<close>

definition setExportMode :: "bool \<Rightarrow> Canvas \<Rightarrow> Canvas" where
  "setExportMode enabled c0 =
     (let c = c0\<lparr>exportMode := enabled\<rparr> in
      if appPresent c \<and> effectsLayer c \<noteq> None then
        if enabled then
          c\<lparr>originalFilters := Some (stageFilters c),
            stageFilters := None,
            effectsLayer := map_option saveVisible (effectsLayer c),
            haze := map_option saveVisible (haze c),
            grain := map_option saveVisible (grain c),
            backgroundCacheAsBitmap := map_option (\<lambda>_. True) (backgroundCacheAsBitmap c),
            tickerStarted := True,
            maxFPS := 0,
            minFPS := 0\<rparr>
        else
          c\<lparr>stageFilters := (case originalFilters c of None \<Rightarrow> stageFilters c | Some f \<Rightarrow> f),
            originalFilters := None,
            effectsLayer := map_option restoreVisible (effectsLayer c),
            haze := map_option restoreVisible (haze c),
            grain := map_option restoreVisible (grain c),
            backgroundCacheAsBitmap := map_option (\<lambda>_. False) (backgroundCacheAsBitmap c),
            tickerStarted := True,
            maxFPS := 0,
            minFPS := 10\<rparr>
      else c)"

text \<open>\<^verbatim>\<open>getCanvas\<close> gives the canvas of the application, \<^verbatim>\<open>getApp\<close> the application.\<close>

definition getCanvas :: "Canvas \<Rightarrow> (nat \<times> nat) option" where
  "getCanvas c = (if appPresent c then Some (canvasWidth c, canvasHeight c) else None)"

definition getApp :: "Canvas \<Rightarrow> bool" where
  "getApp c = appPresent c"

section \<open>The export session\<close>

text \<open>The settings the export reads, and the state of the application component that it
  reads and writes. \<open>canvasRef\<close> is \<^verbatim>\<open>pixiCanvasRef.current\<close>.\<close>

record Settings =
  exportQuality :: string
  duration :: nat
  audio :: bool
  audioLoop :: bool

record App =
  canvasRef :: "Canvas option"
  isPlaying :: bool
  exporting :: bool
  ffmpegLoaded :: bool
  fsFiles :: files
  exportedVideoBlob :: "bytes option"

text \<open>What the session does to the outside, in the order of the calls: the toasts, the
  switches of the export mode, and the invocations of the encoder.\<close>

datatype event =
    ToastInfo
  | ToastCanvasError
  | ToastExportError
  | ToastSuccess
  | ExportModeOn
  | ExportModeOff
  | Exec FFmpegArgs

text \<open>The variables declared ahead of the \<^verbatim>\<open>try\<close> so that \<^verbatim>\<open>finally\<close> can read them.\<close>

record Locals =
  wasPlaying :: bool
  wasTickerRunning :: bool
  pixiApp :: bool

text \<open>A running session: these variables, the application state, the captured frames,
  \<^verbatim>\<open>useRawPixelPipeline\<close>, and the events so far.\<close>

record Run =
  locals :: Locals
  state :: App
  frames :: "FrameData list"
  rawPipelineUsed :: bool
  events :: "event list"

text \<open>How a part of the \<^verbatim>\<open>try\<close> block ends: control goes on, the function returns, or an
  exception is thrown.\<close>

datatype status = Running | Returned | Thrown error

definition seq :: "(Run \<Rightarrow> status \<times> Run) \<Rightarrow> (Run \<Rightarrow> status \<times> Run) \<Rightarrow> Run \<Rightarrow> status \<times> Run" where
  "seq f g r = (case f r of (st, r') \<Rightarrow> (case st of Running \<Rightarrow> g r' | _ \<Rightarrow> (st, r')))"

text \<open>\<^verbatim>\<open>if (!ffmpeg.loaded) { await ffmpeg.load(); addToast(...) }\<close>\<close>

definition loadEngine :: "Platform \<Rightarrow> Run \<Rightarrow> status \<times> Run" where
  "loadEngine P r =
     (if ffmpegLoaded (state r) then (Running, r)
      else if ffmpegLoad P
        then (Running, r\<lparr>state := (state r)\<lparr>ffmpegLoaded := True\<rparr>,
                         events := events r @ [ToastInfo]\<rparr>)
      else (Thrown FFmpegLoadFailed, r))"

text \<open>\<^verbatim>\<open>const canvas = pixiCanvasRef.current.getCanvas(); if (!canvas) { ...; return; }\<close>\<close>

definition checkCanvas :: "Run \<Rightarrow> status \<times> Run" where
  "checkCanvas r =
     (case canvasRef (state r) of
        None \<Rightarrow> (Thrown NullReference, r)
      | Some c \<Rightarrow>
          (case getCanvas c of
             None \<Rightarrow> (Returned, r\<lparr>state := (state r)\<lparr>exporting := False\<rparr>,
                                   events := events r @ [ToastCanvasError]\<rparr>)
           | Some _ \<Rightarrow> (Running, r)))"

text \<open>\<^verbatim>\<open>setExportMode(true)\<close>, then \<^verbatim>\<open>wasPlaying = isPlaying\<close> and the switch to playing.\<close>

definition enterExportMode :: "Run \<Rightarrow> status \<times> Run" where
  "enterExportMode r =
     (case canvasRef (state r) of
        None \<Rightarrow> (Thrown NullReference, r)
      | Some c \<Rightarrow>
          (Running,
           r\<lparr>locals := (locals r)\<lparr>wasPlaying := isPlaying (state r)\<rparr>,
             state := (state r)\<lparr>canvasRef := Some (setExportMode True c), isPlaying := True\<rparr>,
             events := events r @ [ExportModeOn]\<rparr>))"

text \<open>\<^verbatim>\<open>pixiApp = getApp()\<close>, the throw when there is none, then
  \<^verbatim>\<open>wasTickerRunning = pixiApp.ticker.started\<close> and the start of the ticker.\<close>

definition acquireApp :: "Run \<Rightarrow> status \<times> Run" where
  "acquireApp r =
     (case canvasRef (state r) of
        None \<Rightarrow> (Thrown NullReference, r)
      | Some c \<Rightarrow>
          if \<not> getApp c then (Thrown PixiAppNotAvailable, r)
          else (Running,
                r\<lparr>locals := (locals r)\<lparr>pixiApp := True, wasTickerRunning := tickerStarted c\<rparr>,
                  state := (state r)\<lparr>canvasRef := Some (c\<lparr>tickerStarted := True\<rparr>)\<rparr>\<rparr>))"

text \<open>The capture: \<open>frameCount = duration * frameRate\<close>, the batch loop and the sort. The
  idle limit of the texture collector, saved and restored around the loop, is not part of
  the model.\<close>

definition capturePhase :: "Platform \<Rightarrow> Settings \<Rightarrow> Run \<Rightarrow> status \<times> Run" where
  "capturePhase P settings r =
     (case canvasRef (state r) of
        None \<Rightarrow> (Thrown NullReference, r)
      | Some c \<Rightarrow>
          (let config = exportConfig (exportQuality settings);
               frameCount = duration settings * frameRate config
           in case captureStage P config (canvasWidth c) (canvasHeight c) frameCount of
                Inl e \<Rightarrow> (Thrown e, r)
              | Inr fs \<Rightarrow> (Running, r\<lparr>frames := fs\<rparr>)))"

text \<open>The write stage. When it throws, the files written so far are not recorded.\<close>

definition writePhase :: "Platform \<Rightarrow> Settings \<Rightarrow> Run \<Rightarrow> status \<times> Run" where
  "writePhase P settings r =
     (case canvasRef (state r) of
        None \<Rightarrow> (Thrown NullReference, r)
      | Some c \<Rightarrow>
          (let config = exportConfig (exportQuality settings);
               frameCount = duration settings * frameRate config;
               exportWidth = exportDim (canvasWidth c) config;
               exportHeight = exportDim (canvasHeight c) config
           in case writeStage P config exportWidth exportHeight frameCount (frames r)
                     (fsFiles (state r)) of
                Inl e \<Rightarrow> (Thrown e, r)
              | Inr (raw, fs) \<Rightarrow>
                  (Running, r\<lparr>rawPipelineUsed := raw, state := (state r)\<lparr>fsFiles := fs\<rparr>\<rparr>)))"

definition audioBitrate :: "string \<Rightarrow> string" where
  "audioBitrate q = (if q = ''fast'' then ''128k'' else if q = ''quality'' then ''256k'' else ''192k'')"

definition x264Preset :: "string \<Rightarrow> string" where
  "x264Preset q = (if q = ''fast'' then ''ultrafast'' else if q = ''quality'' then ''fast'' else ''faster'')"

definition ffmpegArgs :: "Settings \<Rightarrow> bool \<Rightarrow> nat \<Rightarrow> nat \<Rightarrow> FFmpegArgs" where
  "ffmpegArgs settings raw exportWidth exportHeight =
     \<lparr>argFramerate = frameRate (exportConfig (exportQuality settings)),
      argInput = (if raw then RawVideo exportWidth exportHeight else PngSequence),
      argAudio = (if audio settings
                  then Some (audioLoop settings, audioBitrate (exportQuality settings))
                  else None),
      argPreset = x264Preset (exportQuality settings)\<rparr>"

text \<open>The audio track is staged, then \<^verbatim>\<open>await ffmpeg.exec(ffmpegArgs)\<close> runs the encoder,
  which leaves \<^verbatim>\<open>output.mp4\<close> in the file system.\<close>

definition stageAudio :: "Platform \<Rightarrow> Settings \<Rightarrow> files \<Rightarrow> error + files" where
  "stageAudio P settings fs =
     (if audio settings then
        (case fetchFile P of
           None \<Rightarrow> Inl FetchFileFailed
         | Some d \<Rightarrow> if writeFile P AudioMp3 d then Inr (fs(AudioMp3 \<mapsto> d)) else Inl WriteFileFailed)
      else Inr fs)"

definition encodePhase :: "Platform \<Rightarrow> Settings \<Rightarrow> Run \<Rightarrow> status \<times> Run" where
  "encodePhase P settings r =
     (case canvasRef (state r) of
        None \<Rightarrow> (Thrown NullReference, r)
      | Some c \<Rightarrow>
          (let config = exportConfig (exportQuality settings);
               args = ffmpegArgs settings (rawPipelineUsed r)
                        (exportDim (canvasWidth c) config) (exportDim (canvasHeight c) config)
           in case stageAudio P settings (fsFiles (state r)) of
                Inl e \<Rightarrow> (Thrown e, r)
              | Inr fs \<Rightarrow>
                  (let r' = r\<lparr>state := (state r)\<lparr>fsFiles := fs\<rparr>, events := events r @ [Exec args]\<rparr>
                   in case exec P args fs of
                        None \<Rightarrow> (Thrown ExecFailed, r')
                      | Some out \<Rightarrow>
                          (Running, r'\<lparr>state := (state r')\<lparr>fsFiles := fs(OutputMp4 \<mapsto> out)\<rparr>\<rparr>))))"

text \<open>\<^verbatim>\<open>ffmpeg.deleteFile\<close> over a list of names, up to the first call that rejects.\<close>

fun deleteAll :: "Platform \<Rightarrow> fileName list \<Rightarrow> files \<Rightarrow> error + files" where
  "deleteAll P [] fs = Inr fs"
| "deleteAll P (name # names) fs =
     (if deleteFile P name then deleteAll P names (fs(name := None)) else Inl DeleteFileFailed)"

text \<open>The output is read and published, the staged files are deleted, success is
  announced.\<close>

definition finishPhase :: "Platform \<Rightarrow> Settings \<Rightarrow> Run \<Rightarrow> status \<times> Run" where
  "finishPhase P settings r =
     (case fsFiles (state r) OutputMp4 of
        None \<Rightarrow> (Thrown ReadFileFailed, r)
      | Some data \<Rightarrow>
          (let frameCount = duration settings * frameRate (exportConfig (exportQuality settings));
               r' = r\<lparr>state := (state r)\<lparr>exportedVideoBlob := Some data\<rparr>\<rparr>;
               staged = (if rawPipelineUsed r then [RawVideoRgba]
                         else map FramePng [1..<frameCount + 1])
                        @ (if audio settings then [AudioMp3] else []) @ [OutputMp4]
           in case deleteAll P staged (fsFiles (state r')) of
                Inl e \<Rightarrow> (Thrown e, r')
              | Inr fs \<Rightarrow>
                  (Running, r'\<lparr>state := (state r')\<lparr>fsFiles := fs\<rparr>,
                              events := events r' @ [ToastSuccess]\<rparr>)))"

text \<open>The \<^verbatim>\<open>try\<close> block of \<^verbatim>\<open>handleExport\<close>.\<close>

definition tryBlock :: "Platform \<Rightarrow> Settings \<Rightarrow> Run \<Rightarrow> status \<times> Run" where
  "tryBlock P settings =
     seq (loadEngine P)
       (seq checkCanvas
          (seq enterExportMode
             (seq acquireApp
                (seq (capturePhase P settings)
                   (seq (writePhase P settings)
                      (seq (encodePhase P settings) (finishPhase P settings)))))))"

text \<open>The \<^verbatim>\<open>catch\<close> block: the failure is announced by the error toast.\<close>

definition catchBlock :: "status \<times> Run \<Rightarrow> Run" where
  "catchBlock sr =
     (case sr of
        (Thrown e, r) \<Rightarrow> r\<lparr>events := events r @ [ToastExportError]\<rparr>
      | (_, r) \<Rightarrow> r)"

text \<open>The restore step, the state change of the \<^verbatim>\<open>finally\<close> block: export mode off, the
  ticker stopped when it was not running, the play state set back. The timer that resets
  the progress display two seconds later is not part of the model.\<close>

definition restoreStep :: "Locals \<Rightarrow> App \<Rightarrow> App" where
  "restoreStep l a =
     (let a1 = (case canvasRef a of
                  None \<Rightarrow> a
                | Some c \<Rightarrow>
                    (let c1 = setExportMode False c;
                         c2 = (if \<not> wasTickerRunning l \<and> pixiApp l
                               then c1\<lparr>tickerStarted := False\<rparr> else c1)
                     in a\<lparr>canvasRef := Some c2\<rparr>))
      in if \<not> wasPlaying l then a1\<lparr>isPlaying := False\<rparr> else a1)"

definition finallyBlock :: "Run \<Rightarrow> Run" where
  "finallyBlock r =
     r\<lparr>state := restoreStep (locals r) (state r),
       events := events r @ (if canvasRef (state r) \<noteq> None then [ExportModeOff] else [])\<rparr>"

text \<open>\<^verbatim>\<open>handleExport\<close>: the resulting application state and the events of the session.\<close>

definition handleExport :: "Platform \<Rightarrow> Settings \<Rightarrow> App \<Rightarrow> App \<times> event list" where
  "handleExport P settings a =
     (if exporting a \<or> canvasRef a = None then (a, [])
      else
        (let r0 = \<lparr>locals = \<lparr>wasPlaying = False, wasTickerRunning = False, pixiApp = False\<rparr>,
                   state = a\<lparr>exporting := True\<rparr>, frames = [], rawPipelineUsed = False,
                   events = []\<rparr>;
             r = finallyBlock (catchBlock (tryBlock P settings r0))
         in (state r, events r)))"

section \<open>Predicates of the statements\<close>



text \<open>The payload at position \<open>i\<close> has been emptied by the reclamation that follows one
  of the batches \<open>0, \<dots>, n - 1\<close>: batch \<open>b\<close>, when \<open>b\<close> is even and above 6, empties
  the positions of batch \<open>b - 6\<close>.\<close>

definition released :: "nat \<Rightarrow> nat \<Rightarrow> nat \<Rightarrow> bool" where
  "released batchSize n i \<longleftrightarrow>
     (\<exists>b<n. b mod 2 = 0 \<and> 6 < b \<and> (b - 6) * batchSize \<le> i \<and> i < (b - 6) * batchSize + batchSize)"

text \<open>A frame record with its payload replaced by the empty array.\<close>

definition emptied :: "FrameData \<Rightarrow> FrameData" where
  "emptied f = f\<lparr>frameData := []\<rparr>"

text \<open>No display object carries a saved visibility.\<close>

definition noSaved :: "Sprite option \<Rightarrow> bool" where
  "noSaved s = (case s of None \<Rightarrow> True | Some x \<Rightarrow> originalVisible x = None)"

text \<open>The rendering state of the live preview, outside an export: export mode off, nothing
  saved on the stage or the sprites, the background not cached, the ticker running with
  \<^verbatim>\<open>maxFPS = 0\<close> and \<^verbatim>\<open>minFPS = 10\<close>.\<close>

definition livePreview :: "Canvas \<Rightarrow> bool" where
  "livePreview c \<longleftrightarrow>
     \<not> exportMode c \<and> originalFilters c = None
     \<and> noSaved (effectsLayer c) \<and> noSaved (haze c) \<and> noSaved (grain c)
     \<and> backgroundCacheAsBitmap c \<noteq> Some True
     \<and> tickerStarted c \<and> maxFPS c = 0 \<and> minFPS c = 10"

text \<open>\<open>y\<close> occurs in the list, and \<open>x\<close> occurs ahead of the first \<open>y\<close>.\<close>

definition occursBefore :: "'a \<Rightarrow> 'a \<Rightarrow> 'a list \<Rightarrow> bool" where
  "occursBefore x y xs \<longleftrightarrow> y \<in> set xs \<and> x \<in> set (takeWhile (\<lambda>z. z \<noteq> y) xs)"

text \<open>From a state in \<open>I\<close>, the part \<open>f\<close> of the try block ends in \<open>Q\<close> when control goes
  on, and in \<open>E\<close> when it returns or throws.\<close>

definition establishes ::
  "(Run \<Rightarrow> bool) \<Rightarrow> (Run \<Rightarrow> status \<times> Run) \<Rightarrow> (Run \<Rightarrow> bool) \<Rightarrow> (Run \<Rightarrow> bool) \<Rightarrow> bool" where
  "establishes I f Q E \<longleftrightarrow>
     (\<forall>r st r'. I r \<longrightarrow> f r = (st, r') \<longrightarrow> (if st = Running then Q r' else E r'))"

text \<open>The two situations of a session that started from application state \<open>a\<close> with
  canvas \<open>c\<close>: ahead of \<^verbatim>\<open>setExportMode(true)\<close>, and after it.\<close>

definition beforeExportMode :: "App \<Rightarrow> Canvas \<Rightarrow> Run \<Rightarrow> bool" where
  "beforeExportMode a c r \<longleftrightarrow>
     canvasRef (state r) = Some c
     \<and> locals r = \<lparr>wasPlaying = False, wasTickerRunning = False, pixiApp = False\<rparr>
     \<and> isPlaying (state r) = isPlaying a
     \<and> ExportModeOn \<notin> set (events r)"

definition inExportMode :: "App \<Rightarrow> Canvas \<Rightarrow> Run \<Rightarrow> bool" where
  "inExportMode a c r \<longleftrightarrow>
     canvasRef (state r) = Some (setExportMode True c)
     \<and> wasPlaying (locals r) = isPlaying a
     \<and> (pixiApp (locals r) \<longrightarrow> wasTickerRunning (locals r))
     \<and> isPlaying (state r)"

section \<open>Example platforms and states\<close>

text \<open>No WebGL context; the renderer's extraction returns one opaque red pixel for every
  frame; the PNG encoder is the identity; memory, file system and encoder never fail.\<close>

definition onePixel :: Platform where
  "onePixel = \<lparr>webgl = False, readPixels = (\<lambda>i. None),
     extractPixels = (\<lambda>i. U8 [255, 0, 0, 255]),
     resample = (\<lambda>src sw sh tw th k. 0),
     toBlob = (\<lambda>d w h q. Some d), allocate = (\<lambda>n. True), ffmpegLoad = True,
     writeFile = (\<lambda>name d. True), deleteFile = (\<lambda>name. True), fetchFile = None,
     exec = (\<lambda>args fs. Some [0])\<rparr>"

text \<open>A frame at 1080 by 1920, and the platform without WebGL whose renderer extracts
  frames of this size.\<close>

definition fullFrame :: bytes where
  "fullFrame = replicate (1080 * 1920 * 4) 255"

definition fullSize :: Platform where
  "fullSize = onePixel\<lparr>extractPixels := (\<lambda>i. U8 fullFrame)\<rparr>"

text \<open>The same platform with a WebGL context whose \<^verbatim>\<open>readPixels\<close> throws.\<close>

definition glThrows :: Platform where
  "glThrows = fullSize\<lparr>webgl := True\<rparr>"

text \<open>The one-pixel platform on which no buffer can be allocated.\<close>

definition outOfMemory :: Platform where
  "outOfMemory = onePixel\<lparr>allocate := (\<lambda>n. False)\<rparr>"

text \<open>300 frames of one red pixel in batches of 20, the payloads of batches 2, 4, 6 and 8
  emptied.\<close>

definition capturedFrames :: "FrameData list" where
  "capturedFrames =
     map (\<lambda>i. \<lparr>frameData = (if i div 20 \<in> {2, 4, 6, 8} then [] else [255, 0, 0, 255]),
               frameIndex = i, isRawPixels = True\<rparr>) [0..<300]"



text \<open>A canvas in the live-preview state, one pixel large; an application that shows
  it and plays; the default settings.\<close>

definition previewCanvas :: Canvas where
  "previewCanvas =
     \<lparr>appPresent = True,
      effectsLayer = Some \<lparr>visible = True, originalVisible = None\<rparr>,
      haze = Some \<lparr>visible = True, originalVisible = None\<rparr>,
      grain = Some \<lparr>visible = False, originalVisible = None\<rparr>,
      backgroundCacheAsBitmap = Some False,
      exportMode = False,
      stageFilters = Some [1, 2],
      originalFilters = None,
      tickerStarted = True, maxFPS = 0, minFPS = 10,
      canvasWidth = 1, canvasHeight = 1\<rparr>"

definition studio :: App where
  "studio = \<lparr>canvasRef = Some previewCanvas, isPlaying = True, exporting = False,
     ffmpegLoaded = False, fsFiles = Map.empty, exportedVideoBlob = None\<rparr>"

definition defaults :: Settings where
  "defaults = \<lparr>exportQuality = ''balanced'', duration = 10, audio = False, audioLoop = True\<rparr>"

text \<open>A platform on which the encoder cannot be loaded, and one on which the extraction
  of frame 5 returns nothing.\<close>

definition offline :: Platform where
  "offline = onePixel\<lparr>ffmpegLoad := False\<rparr>"

definition surfaceLost :: Platform where
  "surfaceLost = onePixel\<lparr>extractPixels := (\<lambda>i. if i = 5 then Nullish else U8 [255, 0, 0, 255])\<rparr>"

section \<open>The captured sequence is complete and ordered\<close>

lemma promiseAll_map_Inr: "promiseAll (map Inr xs) = Inr xs"
  by (induction xs) simp_all

lemma promiseAll_InrD: "promiseAll ps = Inr xs \<Longrightarrow> ps = map Inr xs"
  by (induction ps arbitrary: xs rule: promiseAll.induct) (auto split: sum.splits)

lemma length_clearFrame [simp]: "length (clearFrame i fs) = length fs"
  by (simp add: clearFrame_def)

lemma frameIndex_clearFrame [simp]: "map frameIndex (clearFrame i fs) = map frameIndex fs"
  by (simp add: clearFrame_def map_update list_update_same_conv)

lemma frameIndex_fold_clearFrame [simp]:
  "map frameIndex (fold clearFrame is fs) = map frameIndex fs"
  by (induction "is" arbitrary: fs) simp_all

lemma frameIndex_reclaim [simp]: "map frameIndex (reclaim b bs fs) = map frameIndex fs"
  by (simp add: reclaim_def Let_def)

lemma captureBatches_indices:
  assumes task: "\<And>i f. task i = Inr f \<Longrightarrow> frameIndex f = i"
    and bs: "0 < bs"
  shows "captureBatches task fc bs [b..<n] acc = Inr fs \<Longrightarrow>
         map frameIndex acc = [0..<min (b * bs) fc] \<Longrightarrow> b \<le> n \<Longrightarrow>
         map frameIndex fs = [0..<min (n * bs) fc]"
proof (induction "n - b" arbitrary: b acc)
  case 0
  then show ?case by simp
next
  case (Suc d)
  then have lt: "b < n" by simp
  let ?s = "b * bs"
  let ?e = "min (?s + bs) fc"
  from Suc.prems(1) lt obtain rs where
    rs: "promiseAll (map (\<lambda>i. task (?s + i)) [0..<?e - ?s]) = Inr rs"
    and rest: "captureBatches task fc bs [Suc b..<n] (reclaim b bs (acc @ rs)) = Inr fs"
    by (auto simp: upt_conv_Cons Let_def split: sum.splits)
  from rs have eq: "map (\<lambda>i. task (?s + i)) [0..<?e - ?s] = map Inr rs"
    by (rule promiseAll_InrD)
  have len: "length rs = ?e - ?s"
    using arg_cong [OF eq, of length] by simp
  have idx: "map frameIndex rs = [?s..<?s + (?e - ?s)]"
  proof (rule nth_equalityI)
    show "length (map frameIndex rs) = length [?s..<?s + (?e - ?s)]" using len by simp
  next
    fix k assume "k < length (map frameIndex rs)"
    then have k: "k < ?e - ?s" using len by simp
    have "map (\<lambda>i. task (?s + i)) [0..<?e - ?s] ! k = map Inr rs ! k" using eq by simp
    with k len have "task (?s + k) = Inr (rs ! k)" by simp
    then have "frameIndex (rs ! k) = ?s + k" by (rule task)
    moreover have "?s + k < ?s + (?e - ?s)" using k by linarith
    then have "[?s..<?s + (?e - ?s)] ! k = ?s + k" by (rule nth_upt)
    ultimately show "map frameIndex rs ! k = [?s..<?s + (?e - ?s)] ! k" using k len by simp
  qed
  have "map frameIndex (reclaim b bs (acc @ rs)) = [0..<min (Suc b * bs) fc]"
  proof (cases "?s \<le> fc")
    case True
    then have "map frameIndex (acc @ rs) = [0..<?s] @ [?s..<?e]"
      using Suc.prems(2) idx by (simp add: min_def)
    also have "\<dots> = [0..<?e]"
      using upt_add_eq_append [of 0 ?s "?e - ?s"] True by (simp add: min_def)
    finally show ?thesis by (simp add: add.commute)
  next
    case False
    then show ?thesis using Suc.prems(2) idx by (simp add: min_def)
  qed
  moreover have "n - Suc b = d" using Suc.hyps(2) by simp
  ultimately show ?case using Suc.hyps(1) [of "Suc b" "reclaim b bs (acc @ rs)"] rest lt
    by simp
qed

lemma all_Inr_map: "\<forall>p\<in>set ps. \<exists>f. p = Inr f \<Longrightarrow> \<exists>rs. ps = map Inr rs"
proof (induction ps)
  case Nil
  then show ?case by simp
next
  case (Cons p ps)
  then obtain f rs where "p = Inr f" "ps = map Inr rs" by auto
  then have "p # ps = map Inr (f # rs)" by simp
  then show ?case by (rule exI)
qed

lemma captureBatches_total:
  assumes task: "\<And>i. i < fc \<Longrightarrow> \<exists>f. task i = Inr f"
  shows "\<exists>fs. captureBatches task fc bs bl acc = Inr fs"
proof (induction bl arbitrary: acc)
  case Nil
  then show ?case by simp
next
  case (Cons b bl)
  let ?s = "b * bs"
  let ?e = "min (?s + bs) fc"
  have "\<forall>p \<in> set (map (\<lambda>i. task (?s + i)) [0..<?e - ?s]). \<exists>f. p = Inr f"
    using task by auto
  then have "\<exists>rs. map (\<lambda>i. task (?s + i)) [0..<?e - ?s] = map Inr rs"
    by (rule all_Inr_map)
  then obtain rs where "promiseAll (map (\<lambda>i. task (?s + i)) [0..<?e - ?s]) = Inr rs"
    by (auto simp: promiseAll_map_Inr)
  then show ?case using Cons.IH by (simp add: Let_def)
qed

lemma ceilDiv_covers: "0 < b \<Longrightarrow> a \<le> ceilDiv a b * b"
proof -
  assume b: "0 < b"
  have "a + b - 1 = (a + b - 1) div b * b + (a + b - 1) mod b" by simp
  moreover have "(a + b - 1) mod b < b" using b by simp
  ultimately show ?thesis unfolding ceilDiv_def by linarith
qed

lemma captureAll_indices:
  assumes task: "\<And>i f. task i = Inr f \<Longrightarrow> frameIndex f = i"
    and "0 < fcs" "0 < fc" "captureAll task fcs fc = Inr fs"
  shows "map frameIndex fs = [0..<fc]"
proof -
  let ?bs = "min fcs fc"
  have bs: "0 < ?bs" using assms by simp
  have "map frameIndex fs = [0..<min (ceilDiv fc ?bs * ?bs) fc]"
    using captureBatches_indices [where task = task and bs = "?bs" and fc = fc and b = 0
        and n = "ceilDiv fc ?bs" and acc = "[]" and fs = fs, OF task bs] assms(4)
    by (simp add: captureAll_def Let_def)
  then show ?thesis using ceilDiv_covers [OF bs, of fc] by (simp add: min_def)
qed

lemma captureFrame_index:
  "captureFrame P c aw ah ew eh i = Inr f \<Longrightarrow> frameIndex f = i"
  by (auto simp: captureFrame_def split: sum.splits option.splits if_splits)

text \<open>
  C1. For every positive \<open>frameCount\<close>, when every frame of the range is extracted, the
  capture stage (batch loop, then the sort by \<open>frameIndex\<close>) returns exactly
  \<open>frameCount\<close> records whose indices are \<open>0, 1, \<dots>, frameCount - 1\<close> in this order:
  no gap, no duplicate, ascending.
\<close>

theorem capture_indices_complete:
  assumes "0 < frameCount" and "0 < frameCaptureSize config"
    and "\<forall>i<frameCount. \<exists>f. captureFrame P config aw ah (exportDim aw config) (exportDim ah config) i = Inr f"
  shows "\<exists>allFrames. captureStage P config aw ah frameCount = Inr allFrames
           \<and> length allFrames = frameCount
           \<and> map frameIndex allFrames = [0..<frameCount]"
proof -
  let ?task = "captureFrame P config aw ah (exportDim aw config) (exportDim ah config)"
  have "\<exists>fs. captureBatches ?task frameCount bs bl [] = Inr fs" for bs bl
    by (rule captureBatches_total) (use assms(3) in blast)
  then obtain fs where fs: "captureAll ?task (frameCaptureSize config) frameCount = Inr fs"
    unfolding captureAll_def Let_def by blast
  have idx: "map frameIndex fs = [0..<frameCount]"
    using captureAll_indices [of ?task, OF captureFrame_index assms(2) assms(1) fs] .
  then have "sorted (map frameIndex fs)" by simp
  then have "sortFrames fs = fs" by (simp add: sortFrames_def sort_key_id_if_sorted)
  moreover have "length fs = frameCount" using arg_cong [OF idx, of length] by simp
  ultimately show ?thesis using fs idx by (simp add: captureStage_def Let_def)
qed


lemma captureFrame_onePixel:
  "captureFrame onePixel balanced aw ah ew eh i
     = Inr \<lparr>frameData = [255, 0, 0, 255], frameIndex = i, isRawPixels = True\<rparr>"
  by (simp add: captureFrame_def extractFramePixels_def onePixel_def balanced_def)

theorem capture_indices_complete_witness:
  "\<exists>allFrames. captureStage onePixel balanced 1 1 45 = Inr allFrames
     \<and> length allFrames = 45 \<and> map frameIndex allFrames = [0..<45]"
proof -
  have "0 < frameCaptureSize balanced" by (simp add: balanced_def)
  moreover have "\<forall>i<45. \<exists>f. captureFrame onePixel balanced 1 1
      (exportDim 1 balanced) (exportDim 1 balanced) i = Inr f"
    by (simp add: captureFrame_onePixel)
  ultimately show ?thesis
    using capture_indices_complete [of 45 balanced onePixel 1 1] by simp
qed

section \<open>Raw concatenation\<close>








section \<open>The memory estimate selects the transport\<close>

text \<open>The write stage reads the preference from the first captured frame; every captured
  frame carries the \<open>useRawPixels\<close> of the configuration.\<close>

lemma isRawPixels_clearFrame [simp]: "map isRawPixels (clearFrame i fs) = map isRawPixels fs"
  by (simp add: clearFrame_def map_update list_update_same_conv)

lemma isRawPixels_fold_clearFrame [simp]:
  "map isRawPixels (fold clearFrame js fs) = map isRawPixels fs"
  by (induction js arbitrary: fs) simp_all

lemma isRawPixels_reclaim [simp]: "map isRawPixels (reclaim b bs fs) = map isRawPixels fs"
  by (simp add: reclaim_def Let_def)

lemma captureFrame_flag:
  "captureFrame P config aw ah ew eh i = Inr f \<Longrightarrow> isRawPixels f = useRawPixels config"
  by (auto simp: captureFrame_def split: sum.splits option.splits if_splits)

lemma captureBatches_flag:
  assumes task: "\<And>i f. task i = Inr f \<Longrightarrow> isRawPixels f = u"
  shows "captureBatches task fc bs bl acc = Inr fs \<Longrightarrow>
         set (map isRawPixels acc) \<subseteq> {u} \<Longrightarrow> set (map isRawPixels fs) \<subseteq> {u}"
proof (induction bl arbitrary: acc)
  case Nil
  then show ?case by simp
next
  case (Cons b bl)
  let ?s = "b * bs"
  let ?e = "min (?s + bs) fc"
  from Cons.prems(1) obtain rs where
    rs: "promiseAll (map (\<lambda>k. task (?s + k)) [0..<?e - ?s]) = Inr rs"
    and rest: "captureBatches task fc bs bl (reclaim b bs (acc @ rs)) = Inr fs"
    by (auto simp: Let_def split: sum.splits)
  from rs have eq: "map (\<lambda>k. task (?s + k)) [0..<?e - ?s] = map Inr rs"
    by (rule promiseAll_InrD)
  have "isRawPixels f = u" if "f \<in> set rs" for f
  proof -
    from that have "Inr f \<in> set (map Inr rs :: (error + FrameData) list)" by simp
    then have "Inr f \<in> set (map (\<lambda>k. task (?s + k)) [0..<?e - ?s])" using eq by simp
    then obtain k where "task (?s + k) = Inr f" by auto
    then show ?thesis by (rule task)
  qed
  then have "set (map isRawPixels (reclaim b bs (acc @ rs))) \<subseteq> {u}"
    using Cons.prems(2) by auto
  then show ?case using Cons.IH [OF rest] by blast
qed

lemma captured_frames_flag:
  assumes "0 < frameCaptureSize config" and "0 < frameCount"
    and "captureStage P config aw ah frameCount = Inr allFrames"
  shows "allFrames \<noteq> [] \<and> isRawPixels (hd allFrames) = useRawPixels config"
proof -
  let ?task = "captureFrame P config aw ah (exportDim aw config) (exportDim ah config)"
  from assms(3) obtain fs where
    fs: "captureAll ?task (frameCaptureSize config) frameCount = Inr fs"
    and sorted: "allFrames = sortFrames fs"
    by (auto simp: captureStage_def Let_def split: sum.splits)
  have "map frameIndex fs = [0..<frameCount]"
    using captureAll_indices [of ?task, OF captureFrame_index assms(1,2) fs] .
  then have "length (map frameIndex fs) = length [0..<frameCount]" by (rule arg_cong)
  then have "length fs = frameCount" by simp
  then have "length allFrames = frameCount" using sorted by (simp add: sortFrames_def)
  then have ne: "allFrames \<noteq> []" using assms(2) by auto
  have "set (map isRawPixels fs) \<subseteq> {useRawPixels config}"
  proof (rule captureBatches_flag [where task = ?task and acc = "[]"])
    show "isRawPixels f = useRawPixels config" if "?task i = Inr f" for i f
      using that by (rule captureFrame_flag)
    show "captureBatches ?task frameCount (min (frameCaptureSize config) frameCount)
        [0..<ceilDiv frameCount (min (frameCaptureSize config) frameCount)] [] = Inr fs"
      using fs by (simp add: captureAll_def Let_def)
    show "set (map isRawPixels []) \<subseteq> {useRawPixels config}" by simp
  qed
  then have "\<forall>f\<in>set allFrames. isRawPixels f = useRawPixels config"
    using sorted by (auto simp: sortFrames_def)
  then show ?thesis using ne by simp
qed

lemma length_fullFrame: "length fullFrame = 8294400"
  by (simp add: fullFrame_def)

lemma over_limit_iff:
  "(3/2 < totalMemoryGB framePixelCount frameCount) = (1610612736 < framePixelCount * frameCount)"
proof -
  let ?n = "framePixelCount * frameCount"
  have "(3/2 < totalMemoryGB framePixelCount frameCount)
      \<longleftrightarrow> (3/2 :: rat) * (1024 * 1024 * 1024) < of_nat ?n"
    unfolding totalMemoryGB_def by (rule pos_less_divide_eq) simp
  also have "\<dots> \<longleftrightarrow> (of_nat 1610612736 :: rat) < of_nat ?n" by simp
  also have "\<dots> \<longleftrightarrow> 1610612736 < ?n" by (simp only: of_nat_less_iff)
  finally show ?thesis .
qed

lemma portrait_bound:
  assumes "1.5 * 1024 ^ 3 / (1080 * 1920 * 4) \<le> real frameCount"
  shows "1610612736 < 1080 * 1920 * 4 * frameCount"
proof -
  have "real 195 \<le> real frameCount"
  proof (rule ccontr)
    assume "\<not> real 195 \<le> real frameCount"
    then have "frameCount \<le> 194" by simp
    then have "real frameCount \<le> 194" by simp
    with assms show False by simp
  qed
  then have "195 \<le> frameCount" by simp
  then show ?thesis by simp
qed

text \<open>
  C3. When the captured frames are raw pixels, the write stage estimates
  \<open>exportWidth * exportHeight * 4 * frameCount\<close> bytes and takes the compressed-image
  pipeline for the whole session (flag \<open>False\<close>, every frame converted to PNG) exactly
  when the estimate exceeds 1.5 GiB = 1610612736 bytes; otherwise it attempts the raw
  pipeline. In particular, at 1080 by 1920 every \<open>frameCount\<close> of at least
  \<open>1.5 * 1024\<^sup>3 / (1080 * 1920 * 4)\<close> takes the compressed-image pipeline.
\<close>

theorem memory_override:
  assumes "allFrames \<noteq> []" and "isRawPixels (hd allFrames)"
  shows "writeStage P config exportWidth exportHeight frameCount allFrames fs =
           (if 1610612736 < exportWidth * exportHeight * 4 * frameCount
            then map_sum id (Pair False)
                   (pngFallback P exportWidth exportHeight (writeBatchSize config) allFrames
                      (batchStarts (length allFrames) (writeBatchSize config)) fs)
            else (case rawPipeline P allFrames (exportWidth * exportHeight * 4) frameCount fs of
                    Inr fs' \<Rightarrow> Inr (True, fs')
                  | Inl memoryError \<Rightarrow>
                      map_sum id (Pair False)
                        (pngFallback P exportWidth exportHeight (writeBatchSize config) allFrames
                           (batchStarts (length allFrames) (writeBatchSize config)) fs)))
       \<and> (1.5 * 1024 ^ 3 / (1080 * 1920 * 4) \<le> real frameCount \<longrightarrow>
            writeStage P config 1080 1920 frameCount allFrames fs =
              map_sum id (Pair False)
                (pngFallback P 1080 1920 (writeBatchSize config) allFrames
                   (batchStarts (length allFrames) (writeBatchSize config)) fs))"
proof -
  have gen: "writeStage P config w h frameCount allFrames fs =
           (if 1610612736 < w * h * 4 * frameCount
            then map_sum id (Pair False)
                   (pngFallback P w h (writeBatchSize config) allFrames
                      (batchStarts (length allFrames) (writeBatchSize config)) fs)
            else (case rawPipeline P allFrames (w * h * 4) frameCount fs of
                    Inr fs' \<Rightarrow> Inr (True, fs')
                  | Inl memoryError \<Rightarrow>
                      map_sum id (Pair False)
                        (pngFallback P w h (writeBatchSize config) allFrames
                           (batchStarts (length allFrames) (writeBatchSize config)) fs)))" for w h
    unfolding writeStage_def Let_def over_limit_iff
    using assms by (simp split: sum.splits)
  show ?thesis
  proof (intro conjI impI)
    show "writeStage P config exportWidth exportHeight frameCount allFrames fs =
           (if 1610612736 < exportWidth * exportHeight * 4 * frameCount
            then map_sum id (Pair False)
                   (pngFallback P exportWidth exportHeight (writeBatchSize config) allFrames
                      (batchStarts (length allFrames) (writeBatchSize config)) fs)
            else (case rawPipeline P allFrames (exportWidth * exportHeight * 4) frameCount fs of
                    Inr fs' \<Rightarrow> Inr (True, fs')
                  | Inl memoryError \<Rightarrow>
                      map_sum id (Pair False)
                        (pngFallback P exportWidth exportHeight (writeBatchSize config) allFrames
                           (batchStarts (length allFrames) (writeBatchSize config)) fs)))"
      by (rule gen)
  next
    assume "1.5 * 1024 ^ 3 / (1080 * 1920 * 4) \<le> real frameCount"
    then have "1610612736 < 1080 * 1920 * 4 * frameCount" by (rule portrait_bound)
    then show "writeStage P config 1080 1920 frameCount allFrames fs =
              map_sum id (Pair False)
                (pngFallback P 1080 1920 (writeBatchSize config) allFrames
                   (batchStarts (length allFrames) (writeBatchSize config)) fs)"
      by (simp only: gen if_True)
  qed
qed

lemma newImageData_fullFrame: "newImageData fullFrame 1080 1920 = Inr fullFrame"
  by (simp add: newImageData_def length_fullFrame)

lemma batchStarts_one: "batchStarts (Suc 0) 15 = [0]"
  by (simp add: batchStarts_def ceilDiv_def)

theorem memory_override_witness:
  "writeStage fullSize balanced 1080 1920 195
      [\<lparr>frameData = fullFrame, frameIndex = 0, isRawPixels = True\<rparr>] Map.empty
     = Inr (False, [FramePng 1 \<mapsto> fullFrame])"
proof -
  let ?fs = "[\<lparr>frameData = fullFrame, frameIndex = 0, isRawPixels = True\<rparr>]"
  have h1: "?fs \<noteq> []" by simp
  have h2: "isRawPixels (hd ?fs)" by simp
  have h3: "1.5 * 1024 ^ 3 / (1080 * 1920 * 4) \<le> real 195" by simp
  have "length fullFrame \<noteq> 0" by (simp add: length_fullFrame)
  then have "fullFrame \<noteq> []" by auto
  then have "convertRGBAToPNG fullSize fullFrame 1080 1920 85 = ([], Inr fullFrame)"
    by (simp add: convertRGBAToPNG_def validatePixelData_def encodePNG_def
        newImageData_fullFrame length_fullFrame fullSize_def onePixel_def)
  then have pf: "pngFallback fullSize 1080 1920 15 ?fs [0] Map.empty
      = Inr [FramePng 1 \<mapsto> fullFrame]"
    by (simp add: slice_def fullSize_def onePixel_def)
  have ws: "writeStage fullSize balanced 1080 1920 195 ?fs Map.empty =
      map_sum id (Pair False)
        (pngFallback fullSize 1080 1920 (writeBatchSize balanced) ?fs
           (batchStarts (length ?fs) (writeBatchSize balanced)) Map.empty)"
    using memory_override [OF h1 h2, of fullSize balanced 1080 1920 195 Map.empty] h3
    by blast
  have "writeBatchSize balanced = 15" by (simp add: balanced_def)
  moreover have "batchStarts (length ?fs) 15 = [0]" by (simp add: batchStarts_one)
  ultimately show ?thesis by (simp only: ws pf map_sum.simps id_apply)
qed

lemma below_limit_189: "\<not> totalMemoryGB (1080 * 1920 * 4) 189 > 3/2"
  unfolding over_limit_iff by simp

lemma below_limit_194: "\<not> totalMemoryGB (1080 * 1920 * 4) 194 > 3/2"
  unfolding over_limit_iff by simp

section \<open>The validation of the transcoder\<close>

lemma newImageData_length:
  assumes "newImageData d sw sh = Inr img"
  shows "length d = sw * sh * 4"
proof -
  from assms have m4: "length d mod 4 = 0" and sw: "(length d div 4) mod sw = 0"
    and sh: "(length d div 4) div sw = sh"
    by (auto simp: newImageData_def split: if_splits)
  have "length d = 4 * (length d div 4)" using m4 by presburger
  moreover have "length d div 4 = sw * ((length d div 4) div sw)" using sw by auto
  ultimately show ?thesis using sh by (simp add: mult.commute)
qed

lemma encodePNG_rejects_mismatch:
  "length pixels \<noteq> width * height * 4 \<Longrightarrow> \<exists>e. encodePNG P pixels width height q = Inl e"
  using newImageData_length [of pixels width height]
  by (cases "newImageData pixels width height") (auto simp: encodePNG_def)

text \<open>
  C7, as stated, fails on the empty buffer: its length differs from \<open>width * height * 4\<close>,
  and the transcoder throws instead of producing an image.
\<close>

theorem empty_buffer_counterexample:
  "length ([] :: bytes) \<noteq> 1 * 1 * 4
     \<and> convertRGBAToPNG onePixel [] 1 1 (7/10) = ([], Inl (EmptyPixelData 1 1))"
  by (simp add: convertRGBAToPNG_def validatePixelData_def)

text \<open>
  C7, amended. On a buffer whose length differs from \<open>width * height * 4\<close>, the transcoder
  throws "Empty pixel data" when the buffer is empty; on a non-empty buffer its validation
  logs the two mismatch warnings, throws nothing, and hands the buffer on to the image
  construction and the PNG encoder.
\<close>

theorem mismatch_only_warns:
  assumes "length pixels \<noteq> width * height * 4"
  shows "convertRGBAToPNG P pixels width height q =
           (if pixels = [] then ([], Inl (EmptyPixelData width height))
            else ([PixelSizeMismatch (width * height * 4) width height (length pixels),
                   ResolutionMismatchHint],
                  encodePNG P pixels width height q))"
  using assms by (simp add: convertRGBAToPNG_def validatePixelData_def)

theorem mismatch_only_warns_witness:
  "convertRGBAToPNG onePixel [1, 2, 3] 1 1 (7/10) =
     ([PixelSizeMismatch 4 1 1 3, ResolutionMismatchHint], Inl InvalidStateError)"
  using mismatch_only_warns [of "[1, 2, 3]" 1 1 onePixel "7/10"]
  by (simp add: encodePNG_def newImageData_def)

section \<open>Payload size on the extraction paths\<close>

lemma length_downsamplePixels:
  "downsamplePixels P src sw sh tw th = Inr px \<Longrightarrow> length px = tw * th * 4"
  by (auto simp: downsamplePixels_def split: sum.splits if_splits)

lemma webgl_path_downsampled:
  assumes "webgl P" and "readPixels P i = Some px" and "exportResolution config < 1"
    and "useRawPixels config" and "0 < aw" "0 < ah" "0 < ew" "0 < eh"
  shows "\<exists>f. captureFrame P config aw ah ew eh i = Inr f \<and> length (frameData f) = ew * eh * 4"
proof -
  have "newImageData (map px [0..<aw * ah * 4]) aw ah = Inr (map px [0..<aw * ah * 4])"
    using assms(5,6) by (simp add: newImageData_def)
  then have "webglRead P config aw ah ew eh i
      = Inr (map (resample P (map px [0..<aw * ah * 4]) aw ah ew eh) [0..<ew * eh * 4])"
    using assms by (simp add: webglRead_def downsamplePixels_def Let_def)
  then show ?thesis
    using assms by (simp add: captureFrame_def extractFramePixels_def)
qed

lemma fallback_payload_unchanged:
  assumes "\<not> webgl P \<or> readPixels P i = None"
    and "extractPixels P i = U8 b" and "b \<noteq> []" and "useRawPixels config"
  shows "captureFrame P config aw ah ew eh i
     = Inr \<lparr>frameData = b, frameIndex = i, isRawPixels = True\<rparr>"
  using assms
  by (auto simp: captureFrame_def extractFramePixels_def webglRead_def)

text \<open>
  C6. At export resolution 0.75 of a 1080 by 1920 canvas the export size is 810 by 1440.
  When there is no WebGL context, or when \<^verbatim>\<open>readPixels\<close> throws, the frame record holds
  the renderer's extraction as it is: for an extraction at canvas size its payload has
  \<open>1080 * 1920 * 4\<close> bytes, not \<open>810 * 1440 * 4\<close>. Only the WebGL path downsamples
  (\<open>webgl_path_downsampled\<close>).
\<close>

theorem fallback_not_downsampled:
  "exportDim 1080 fast = 810 \<and> exportDim 1920 fast = 1440
   \<and> captureFrame fullSize fast 1080 1920 810 1440 5
       = Inr \<lparr>frameData = fullFrame, frameIndex = 5, isRawPixels = True\<rparr>
   \<and> captureFrame glThrows fast 1080 1920 810 1440 5
       = Inr \<lparr>frameData = fullFrame, frameIndex = 5, isRawPixels = True\<rparr>
   \<and> length fullFrame = 1080 * 1920 * 4 \<and> length fullFrame \<noteq> 810 * 1440 * 4"
proof -
  have "length fullFrame \<noteq> 0" by (simp add: length_fullFrame)
  then have ne: "fullFrame \<noteq> []" by auto
  have d: "exportDim 1080 fast = 810" "exportDim 1920 fast = 1440"
    by (simp_all add: exportDim_def fast_def)
  have c1: "captureFrame fullSize fast 1080 1920 810 1440 5
       = Inr \<lparr>frameData = fullFrame, frameIndex = 5, isRawPixels = True\<rparr>"
    using ne by (simp add: captureFrame_def extractFramePixels_def fullSize_def onePixel_def
        fast_def)
  have c2: "captureFrame glThrows fast 1080 1920 810 1440 5
       = Inr \<lparr>frameData = fullFrame, frameIndex = 5, isRawPixels = True\<rparr>"
    using ne by (simp add: captureFrame_def extractFramePixels_def webglRead_def glThrows_def
        fullSize_def onePixel_def fast_def)
  show ?thesis using d c1 c2 by (simp add: length_fullFrame)
qed

section \<open>What the reclamation releases\<close>

lemma length_promiseAll: "promiseAll ps = Inr xs \<Longrightarrow> length xs = length ps"
  by (induction ps arbitrary: xs rule: promiseAll.induct) (auto split: sum.splits)

lemma length_fold_clearFrame [simp]: "length (fold clearFrame js fs) = length fs"
  by (induction js arbitrary: fs) (simp_all add: clearFrame_def)

lemma clearFrame_nth:
  "i < length fs \<Longrightarrow> clearFrame j fs ! i = (if i = j then emptied (fs ! i) else fs ! i)"
  by (simp add: clearFrame_def emptied_def nth_list_update)

lemma fold_clearFrame_nth:
  "i < length fs \<Longrightarrow>
     fold clearFrame [s..<e] fs ! i = (if s \<le> i \<and> i < e then emptied (fs ! i) else fs ! i)"
proof (induction e)
  case 0
  then show ?case by simp
next
  case (Suc e)
  show ?case
  proof (cases "s \<le> e")
    case True
    then have "fold clearFrame [s..<Suc e] fs = clearFrame e (fold clearFrame [s..<e] fs)"
      by simp
    then show ?thesis using Suc True by (auto simp: clearFrame_nth)
  next
    case False
    then show ?thesis by auto
  qed
qed

lemma reclaim_nth:
  "i < length fs \<Longrightarrow>
     reclaim b bs fs ! i =
       (if b mod 2 = 0 \<and> 6 < b \<and> (b - 6) * bs \<le> i \<and> i < (b - 6) * bs + bs
        then emptied (fs ! i) else fs ! i)"
  by (simp add: reclaim_def Let_def fold_clearFrame_nth)

lemma length_reclaim [simp]: "length (reclaim b bs fs) = length fs"
  by (simp add: reclaim_def Let_def)

lemma released_Suc:
  "released bs (Suc n) i \<longleftrightarrow>
     released bs n i \<or> (n mod 2 = 0 \<and> 6 < n \<and> (n - 6) * bs \<le> i \<and> i < (n - 6) * bs + bs)"
  by (auto simp: released_def less_Suc_eq)

lemma not_released_ahead:
  assumes "b * bs \<le> i"
  shows "\<not> released bs b i"
proof
  assume "released bs b i"
  then obtain c where c: "c < b" "6 < c" "i < (c - 6) * bs + bs"
    by (auto simp: released_def)
  then have "Suc (c - 6) \<le> b" by simp
  then have "Suc (c - 6) * bs \<le> b * bs" by (rule mult_le_mono1)
  with c assms show False by simp
qed

lemma captureBatches_payloads:
  assumes task: "\<And>i. i < fc \<Longrightarrow> task i = Inr (g i)"
  shows "captureBatches task fc bs [b..<n] acc = Inr fs \<Longrightarrow>
         length acc = min (b * bs) fc \<Longrightarrow>
         (\<forall>i<length acc. acc ! i = (if released bs b i then emptied (g i) else g i)) \<Longrightarrow>
         b \<le> n \<Longrightarrow>
         length fs = min (n * bs) fc
           \<and> (\<forall>i<length fs. fs ! i = (if released bs n i then emptied (g i) else g i))"
proof (induction "n - b" arbitrary: b acc)
  case 0
  then show ?case by simp
next
  case (Suc d)
  then have lt: "b < n" by simp
  let ?s = "b * bs"
  let ?e = "min (?s + bs) fc"
  from Suc.prems(1) lt obtain rs where
    rs: "promiseAll (map (\<lambda>i. task (?s + i)) [0..<?e - ?s]) = Inr rs"
    and rest: "captureBatches task fc bs [Suc b..<n] (reclaim b bs (acc @ rs)) = Inr fs"
    by (auto simp: upt_conv_Cons Let_def split: sum.splits)
  from rs have eq: "map (\<lambda>i. task (?s + i)) [0..<?e - ?s] = map Inr rs"
    by (rule promiseAll_InrD)
  have len: "length rs = ?e - ?s"
    using arg_cong [OF eq, of length] by simp
  have rsk: "rs ! k = g (?s + k)" if k: "k < ?e - ?s" for k
  proof -
    have "map (\<lambda>i. task (?s + i)) [0..<?e - ?s] ! k = map Inr rs ! k" using eq by simp
    with k len have "task (?s + k) = Inr (rs ! k)" by simp
    moreover have "?s + k < fc" using k by linarith
    ultimately show ?thesis using task by simp
  qed
  let ?acc = "reclaim b bs (acc @ rs)"
  have l1: "length ?acc = min (Suc b * bs) fc"
    using Suc.prems(2) len by (simp add: min_def add.commute)
  have l2: "?acc ! i = (if released bs (Suc b) i then emptied (g i) else g i)"
    if i: "i < length ?acc" for i
  proof -
    have i': "i < length (acc @ rs)" using i by simp
    have base: "(acc @ rs) ! i = (if released bs b i then emptied (g i) else g i)"
    proof (cases "i < length acc")
      case True
      then show ?thesis using Suc.prems(3) by (simp add: nth_append)
    next
      case False
      then have ge: "?s \<le> i" using Suc.prems(2) i' len by (simp add: min_def split: if_splits)
      have "length acc = ?s" using False i' Suc.prems(2) len by (simp add: min_def split: if_splits)
      then have "(acc @ rs) ! i = rs ! (i - ?s)" using False by (simp add: nth_append)
      also have "\<dots> = g (?s + (i - ?s))"
        using i' len \<open>length acc = ?s\<close> ge by (intro rsk) simp
      finally show ?thesis using ge not_released_ahead [OF ge] by simp
    qed
    have "emptied (emptied (g i)) = emptied (g i)" by (simp add: emptied_def)
    then show ?thesis
      using reclaim_nth [OF i', of b bs] base by (simp add: released_Suc)
  qed
  have "n - Suc b = d" using Suc.hyps(2) by simp
  then show ?case
    using Suc.hyps(1) [of "Suc b" ?acc] rest l1 l2 lt by simp
qed

lemma captureAll_payloads:
  assumes task: "\<And>i. i < fc \<Longrightarrow> task i = Inr (g i)"
    and "0 < fcs" "0 < fc"
  shows "captureAll task fcs fc =
     Inr (map (\<lambda>i. if released (min fcs fc) (ceilDiv fc (min fcs fc)) i
                   then emptied (g i) else g i) [0..<fc])"
proof -
  let ?bs = "min fcs fc"
  let ?n = "ceilDiv fc ?bs"
  have bs: "0 < ?bs" using assms by simp
  have "\<exists>fs. captureBatches task fc ?bs [0..<?n] [] = Inr fs"
    by (rule captureBatches_total) (use task in blast)
  then obtain fs where fs: "captureBatches task fc ?bs [0..<?n] [] = Inr fs" by blast
  from captureBatches_payloads [where task = task and g = g, OF task fs]
  have "length fs = min (?n * ?bs) fc"
    and nth: "\<forall>i<length fs. fs ! i = (if released ?bs ?n i then emptied (g i) else g i)"
    by simp_all
  then have len: "length fs = fc" using ceilDiv_covers [OF bs, of fc] by (simp add: min_def)
  have "fs = map (\<lambda>i. if released ?bs ?n i then emptied (g i) else g i) [0..<fc]"
    by (rule nth_equalityI) (use len nth in simp_all)
  then show ?thesis using fs by (simp add: captureAll_def Let_def)
qed


lemma released_iff:
  assumes "0 < bs"
  shows "released bs n i \<longleftrightarrow> 0 < i div bs \<and> (i div bs) mod 2 = 0 \<and> i div bs + 6 < n"
proof
  assume "released bs n i"
  then obtain b where b: "b < n" "b mod 2 = 0" "6 < b" "(b - 6) * bs \<le> i"
    "i < (b - 6) * bs + bs"
    by (auto simp: released_def)
  have "i div bs = b - 6"
    by (rule div_nat_eqI) (use b in \<open>simp_all add: mult.commute\<close>)
  moreover have "(b - 6) mod 2 = 0" using b(2,3) by presburger
  ultimately show "0 < i div bs \<and> (i div bs) mod 2 = 0 \<and> i div bs + 6 < n"
    using b by simp
next
  assume r: "0 < i div bs \<and> (i div bs) mod 2 = 0 \<and> i div bs + 6 < n"
  let ?b = "i div bs + 6"
  have ev: "(c + 6) mod 2 = 0" if "c mod 2 = 0" for c :: nat using that by presburger
  have "?b mod 2 = 0" by (rule ev) (use r in simp)
  moreover have "(?b - 6) * bs \<le> i" by simp
  moreover have "i < (?b - 6) * bs + bs"
    using dividend_less_div_times [OF assms, of i] by (simp add: add.commute)
  ultimately show "released bs n i"
    unfolding released_def using r by (intro exI [of _ ?b]) simp
qed

lemma captureStage_payloads:
  assumes "0 < frameCaptureSize config" and "0 < fc"
    and task: "\<And>i. i < fc \<Longrightarrow>
      captureFrame P config aw ah (exportDim aw config) (exportDim ah config) i = Inr (g i)"
  shows "captureStage P config aw ah fc =
     Inr (map (\<lambda>i. if released (min (frameCaptureSize config) fc)
                        (ceilDiv fc (min (frameCaptureSize config) fc)) i
                   then emptied (g i) else g i) [0..<fc])"
proof -
  let ?task = "captureFrame P config aw ah (exportDim aw config) (exportDim ah config)"
  let ?fs = "map (\<lambda>i. if released (min (frameCaptureSize config) fc)
                        (ceilDiv fc (min (frameCaptureSize config) fc)) i
                   then emptied (g i) else g i) [0..<fc]"
  have all: "captureAll ?task (frameCaptureSize config) fc = Inr ?fs"
    by (rule captureAll_payloads) (use assms in simp_all)
  have "frameIndex (g i) = i" if "i < fc" for i
    using task [OF that] by (rule captureFrame_index)
  then have "map frameIndex ?fs = [0..<fc]"
    by (intro nth_equalityI) (simp_all add: emptied_def)
  then have "sorted (map frameIndex ?fs)" by (simp only: sorted_upt)
  then have "sortFrames ?fs = ?fs" unfolding sortFrames_def by (rule sort_key_id_if_sorted)
  then show ?thesis using all by (simp add: captureStage_def Let_def)
qed

lemma captureFrame_red:
  assumes "\<not> webgl P" and "extractPixels P = (\<lambda>i. U8 [255, 0, 0, 255])"
  shows "captureFrame P balanced aw ah ew eh i
     = Inr \<lparr>frameData = [255, 0, 0, 255], frameIndex = i, isRawPixels = True\<rparr>"
  using assms by (simp add: captureFrame_def extractFramePixels_def balanced_def)

lemma released_300: "released 20 15 i \<longleftrightarrow> i div 20 \<in> {2, 4, 6, 8}"
proof -
  have small: "(0 < c \<and> c mod 2 = 0 \<and> c + 6 < 15) \<longleftrightarrow> c \<in> {2, 4, 6, 8}" for c :: nat
    by (simp only: insert_iff empty_iff) presburger
  have "released 20 15 i \<longleftrightarrow> 0 < i div 20 \<and> (i div 20) mod 2 = 0 \<and> i div 20 + 6 < 15"
    by (rule released_iff) simp
  also have "\<dots> \<longleftrightarrow> i div 20 \<in> {2, 4, 6, 8}" by (rule small) 
  finally show ?thesis .
qed

lemma capture_300:
  assumes "\<not> webgl P" and "extractPixels P = (\<lambda>i. U8 [255, 0, 0, 255])"
  shows "captureStage P balanced 1 1 300 = Inr capturedFrames"
proof -
  have c: "ceilDiv 300 20 = 15" by (simp add: ceilDiv_def)
  have "captureStage P balanced 1 1 300 =
     Inr (map (\<lambda>i. if released (min (frameCaptureSize balanced) 300)
                        (ceilDiv 300 (min (frameCaptureSize balanced) 300)) i
                   then emptied \<lparr>frameData = [255, 0, 0, 255], frameIndex = i, isRawPixels = True\<rparr>
                   else \<lparr>frameData = [255, 0, 0, 255], frameIndex = i, isRawPixels = True\<rparr>)
            [0..<300])"
  proof (rule captureStage_payloads)
    show "0 < frameCaptureSize balanced" by (simp add: balanced_def)
    show "0 < (300 :: nat)" by simp
    show "captureFrame P balanced 1 1 (exportDim 1 balanced) (exportDim 1 balanced) i =
      Inr \<lparr>frameData = [255, 0, 0, 255], frameIndex = i, isRawPixels = True\<rparr>" for i
      by (rule captureFrame_red [OF assms])
  qed
  also have "\<dots> = Inr capturedFrames"
    unfolding capturedFrames_def by (simp add: balanced_def c released_300 emptied_def)
  finally show ?thesis .
qed

text \<open>Below nine batches nothing is released: with 150 frames in 8 batches of 20 every
  payload is kept.\<close>

lemma nothing_released_below_nine_batches:
  assumes "0 < bs" and "n \<le> 8"
  shows "\<not> released bs n i"
proof -
  have "\<not> (0 < c \<and> c mod 2 = 0 \<and> c + 6 < n)" for c :: nat
    using assms(2) by presburger
  then show ?thesis using released_iff [OF assms(1)] by blast
qed

lemma capture_150:
  "captureStage onePixel balanced 1 1 150 =
     Inr (map (\<lambda>i. \<lparr>frameData = [255, 0, 0, 255], frameIndex = i, isRawPixels = True\<rparr>)
            [0..<150])"
proof -
  have c: "ceilDiv 150 20 = 8" by (simp add: ceilDiv_def)
  have "captureStage onePixel balanced 1 1 150 =
     Inr (map (\<lambda>i. if released (min (frameCaptureSize balanced) 150)
                        (ceilDiv 150 (min (frameCaptureSize balanced) 150)) i
                   then emptied \<lparr>frameData = [255, 0, 0, 255], frameIndex = i, isRawPixels = True\<rparr>
                   else \<lparr>frameData = [255, 0, 0, 255], frameIndex = i, isRawPixels = True\<rparr>)
            [0..<150])"
  proof (rule captureStage_payloads)
    show "0 < frameCaptureSize balanced" by (simp add: balanced_def)
    show "0 < (150 :: nat)" by simp
    show "captureFrame onePixel balanced 1 1 (exportDim 1 balanced) (exportDim 1 balanced) i =
      Inr \<lparr>frameData = [255, 0, 0, 255], frameIndex = i, isRawPixels = True\<rparr>" for i
      by (rule captureFrame_red) (simp_all add: onePixel_def)
  qed
  then show ?thesis
    by (simp add: balanced_def c nothing_released_below_nine_batches)
qed

text \<open>
  C8. With the balanced preset and 300 frames the loop runs 15 batches of 20. At its end
  the payloads of batches 2, 4, 6 and 8 are empty and every other payload is kept: frames
  0 and 20 (batches 0 and 1) and frame 60 (batch 3) still hold their pixels although their
  batches are more than 6 batches old; frame 40 (batch 2) is empty. Every record keeps its
  \<open>frameIndex\<close>.
\<close>

theorem reclaim_keeps_old_batches:
  "captureStage onePixel balanced 1 1 300 = Inr capturedFrames
   \<and> frameData (capturedFrames ! 0) = [255, 0, 0, 255]
   \<and> frameData (capturedFrames ! 20) = [255, 0, 0, 255]
   \<and> frameData (capturedFrames ! 40) = []
   \<and> frameData (capturedFrames ! 60) = [255, 0, 0, 255]"
proof -
  have "captureStage onePixel balanced 1 1 300 = Inr capturedFrames"
    by (rule capture_300) (simp_all add: onePixel_def)
  then show ?thesis by (simp add: capturedFrames_def)
qed

section \<open>An oversized payload reaches the next region\<close>
















section \<open>The PNG fallback after a release\<close>

text \<open>When every payload converts and every write succeeds, the fallback after a failed
  raw attempt ends with the PNG files and the flag \<open>False\<close>.\<close>

lemma set_slice_subset: "set (slice i j xs) \<subseteq> set xs"
  unfolding slice_def using set_take_subset set_drop_subset by fast

lemma convertAndWrite_held:
  assumes "\<forall>f\<in>set batch. \<exists>png. snd (convertRGBAToPNG P (frameData f) w h 85) = Inr png"
    and "\<forall>name d. writeFile P name d"
  shows "\<exists>fs'. convertAndWrite P w h batch fs = Inr fs'"
  using assms(1)
proof (induction batch arbitrary: fs)
  case Nil
  then show ?case by simp
next
  case (Cons frame batch)
  then obtain png where "snd (convertRGBAToPNG P (frameData frame) w h 85) = Inr png" by auto
  then show ?case using Cons assms(2) by simp
qed

lemma pngFallback_held:
  assumes "\<forall>f\<in>set allFrames. \<exists>png. snd (convertRGBAToPNG P (frameData f) w h 85) = Inr png"
    and "\<forall>name d. writeFile P name d"
  shows "\<exists>fs'. pngFallback P w h wbs allFrames starts fs = Inr fs'"
proof (induction starts arbitrary: fs)
  case Nil
  then show ?case by simp
next
  case (Cons s starts)
  let ?batch = "slice s (min (s + wbs) (length allFrames)) allFrames"
  have "\<forall>f\<in>set ?batch. \<exists>png. snd (convertRGBAToPNG P (frameData f) w h 85) = Inr png"
    using assms(1) set_slice_subset by fast
  then obtain fs1 where "convertAndWrite P w h ?batch fs = Inr fs1"
    using convertAndWrite_held [OF _ assms(2)] by blast
  then show ?case using Cons.IH [of fs1] by (simp add: Let_def)
qed

lemma fallback_recovers_held_payloads:
  assumes "allFrames \<noteq> []" and "isRawPixels (hd allFrames)"
    and "isl (rawPipeline P allFrames (exportWidth * exportHeight * 4) frameCount fs)"
    and "\<forall>f\<in>set allFrames.
           \<exists>png. snd (convertRGBAToPNG P (frameData f) exportWidth exportHeight 85) = Inr png"
    and "\<forall>name d. writeFile P name d"
  shows "\<exists>fs'. writeStage P config exportWidth exportHeight frameCount allFrames fs
            = Inr (False, fs')"
proof -
  obtain fs' where "pngFallback P exportWidth exportHeight (writeBatchSize config) allFrames
        (batchStarts (length allFrames) (writeBatchSize config)) fs = Inr fs'"
    using pngFallback_held [OF assms(4,5)] by blast
  then show ?thesis
    using assms(1,2,3) by (auto simp: writeStage_def Let_def split: sum.splits)
qed

lemma convertAndWrite_empty_payload:
  "\<exists>f\<in>set batch. frameData f = [] \<Longrightarrow> isl (convertAndWrite P w h batch fs)"
proof (induction batch arbitrary: fs)
  case Nil
  then show ?case by simp
next
  case (Cons frame batch)
  show ?case
  proof (cases "frameData frame = []")
    case True
    then show ?thesis by (simp add: convertRGBAToPNG_def validatePixelData_def)
  next
    case False
    with Cons.prems have "\<exists>f\<in>set batch. frameData f = []" by auto
    then have "isl (convertAndWrite P w h batch fs')" for fs' by (rule Cons.IH)
    then show ?thesis by (simp split: sum.splits)
  qed
qed

lemma pngFallback_empty_batch:
  "\<exists>s\<in>set starts. \<exists>f\<in>set (slice s (min (s + wbs) (length allFrames)) allFrames).
       frameData f = [] \<Longrightarrow>
   isl (pngFallback P w h wbs allFrames starts fs)"
proof (induction starts arbitrary: fs)
  case Nil
  then show ?case by simp
next
  case (Cons s starts)
  let ?batch = "slice s (min (s + wbs) (length allFrames)) allFrames"
  show ?case
  proof (cases "\<exists>f\<in>set ?batch. frameData f = []")
    case True
    then have "isl (convertAndWrite P w h ?batch fs)" by (rule convertAndWrite_empty_payload)
    then show ?thesis by (auto simp: Let_def split: sum.splits)
  next
    case False
    with Cons.prems have "\<exists>s\<in>set starts.
        \<exists>f\<in>set (slice s (min (s + wbs) (length allFrames)) allFrames). frameData f = []"
      by auto
    then have "isl (pngFallback P w h wbs allFrames starts fs')" for fs' by (rule Cons.IH)
    then show ?thesis by (simp add: Let_def split: sum.splits)
  qed
qed

lemma slice_covers:
  assumes "p < length xs" and "0 < wbs"
  shows "xs ! p \<in> set (slice (p div wbs * wbs) (min (p div wbs * wbs + wbs) (length xs)) xs)"
proof -
  let ?s = "p div wbs * wbs"
  let ?e = "min (?s + wbs) (length xs)"
  have s: "?s \<le> p" by simp
  have "p < ?s + wbs" using dividend_less_div_times [OF assms(2), of p] by (simp add: add.commute)
  then have e: "p < ?e" using assms(1) by simp
  have d: "p - ?s < ?e - ?s" using s e by linarith
  have "?e - ?s \<le> length xs - ?s" by (intro diff_le_mono) simp
  then have "length (slice ?s ?e xs) = ?e - ?s" by (simp only: slice_def length_take length_drop min_absorb2)
  with d have k: "p - ?s < length (slice ?s ?e xs)" by simp
  have "slice ?s ?e xs ! (p - ?s) = take (?e - ?s) (drop ?s xs) ! (p - ?s)" by (simp only: slice_def)
  also have "\<dots> = drop ?s xs ! (p - ?s)" using d by (rule nth_take)
  also have "\<dots> = xs ! (?s + (p - ?s))" by (rule nth_drop) (use s assms(1) in linarith)
  also have "?s + (p - ?s) = p" using s by linarith
  finally have "slice ?s ?e xs ! (p - ?s) = xs ! p" .
  then show ?thesis using nth_mem [OF k] by simp
qed

lemma batchStarts_covers:
  assumes "p < n" and "0 < wbs"
  shows "p div wbs * wbs \<in> set (batchStarts n wbs)"
proof -
  have "p < ceilDiv n wbs * wbs" using ceilDiv_covers [OF assms(2), of n] assms(1) by simp
  then have "p div wbs < ceilDiv n wbs" using assms(2) by (simp add: less_mult_imp_div_less)
  then show ?thesis by (auto simp: batchStarts_def)
qed

lemma pngFallback_empty_payload:
  assumes "0 < wbs" and "\<exists>f\<in>set allFrames. frameData f = []"
  shows "isl (pngFallback P w h wbs allFrames (batchStarts (length allFrames) wbs) fs)"
proof -
  from assms(2) obtain p where p: "p < length allFrames" "frameData (allFrames ! p) = []"
    by (auto simp: in_set_conv_nth)
  show ?thesis
    by (rule pngFallback_empty_batch)
      (use p slice_covers [OF p(1) assms(1)] batchStarts_covers [OF p(1) assms(1)] in blast)
qed

text \<open>
  C4. When the frames are raw pixels, the raw pipeline throws, and the payload of some
  frame has been emptied by the reclamation, the PNG fallback throws as well: the write
  stage ends with an error, which the session reports as a failed export.
\<close>

theorem fallback_fails_on_released_payload:
  assumes "allFrames \<noteq> []" and "isRawPixels (hd allFrames)"
    and "0 < writeBatchSize config"
    and "isl (rawPipeline P allFrames (exportWidth * exportHeight * 4) frameCount fs)"
    and "\<exists>f\<in>set allFrames. frameData f = []"
  shows "isl (writeStage P config exportWidth exportHeight frameCount allFrames fs)"
proof -
  have "isl (pngFallback P exportWidth exportHeight (writeBatchSize config) allFrames
        (batchStarts (length allFrames) (writeBatchSize config)) fs)"
    using assms(3,5) by (rule pngFallback_empty_payload)
  then show ?thesis
    using assms(1,2,4) by (auto simp: writeStage_def Let_def split: sum.splits)
qed

lemma length_capturedFrames: "length capturedFrames = 300"
  by (simp add: capturedFrames_def)

theorem fallback_fails_on_released_payload_witness:
  "captureStage outOfMemory balanced 1 1 300 = Inr capturedFrames
   \<and> isl (writeStage outOfMemory balanced 1 1 300 capturedFrames Map.empty)"
proof -
  have c: "captureStage outOfMemory balanced 1 1 300 = Inr capturedFrames"
    by (rule capture_300) (simp_all add: outOfMemory_def onePixel_def)
  have "length capturedFrames \<noteq> 0" by (simp add: length_capturedFrames)
  then have h1: "capturedFrames \<noteq> []" by auto
  have h2: "isRawPixels (hd capturedFrames)" by (simp add: capturedFrames_def hd_map)
  have h3: "0 < writeBatchSize balanced" by (simp add: balanced_def)
  have h4: "isl (rawPipeline outOfMemory capturedFrames (1 * 1 * 4) 300 Map.empty)"
    by (simp add: rawPipeline_def outOfMemory_def onePixel_def)
  have "capturedFrames ! 40 \<in> set capturedFrames"
    by (rule nth_mem) (simp add: length_capturedFrames)
  moreover have "frameData (capturedFrames ! 40) = []" by (simp add: capturedFrames_def)
  ultimately have h5: "\<exists>f\<in>set capturedFrames. frameData f = []" by blast
  show ?thesis
    using c fallback_fails_on_released_payload [OF h1 h2 h3 h4 h5] by simp
qed

section \<open>Restoring the rendering state\<close>

lemma restoreVisible_idem: "restoreVisible (restoreVisible s) = restoreVisible s"
  by (simp add: restoreVisible_def split: option.splits)

lemma map_restoreVisible_idem:
  "map_option restoreVisible (map_option restoreVisible s) = map_option restoreVisible s"
  by (cases s) (simp_all add: restoreVisible_idem)

lemma setExportMode_off_idem:
  "setExportMode False (setExportMode False c) = setExportMode False c"
  by (cases "effectsLayer c")
     (simp_all add: setExportMode_def Let_def restoreVisible_idem option.map_comp comp_def)

lemma setExportMode_off_stopped:
  "setExportMode False ((setExportMode False c)\<lparr>tickerStarted := False\<rparr>)\<lparr>tickerStarted := False\<rparr>
     = (setExportMode False c)\<lparr>tickerStarted := False\<rparr>"
  by (cases "effectsLayer c")
     (simp_all add: setExportMode_def Let_def restoreVisible_idem option.map_comp comp_def)

text \<open>
  C9. The restore step of the session (export mode off, the ticker stopped when it was
  not running, the play state set back) is idempotent: run a second time with the same
  saved variables, it leaves the state as the first run left it.
\<close>

theorem restore_idempotent:
  "restoreStep l (restoreStep l a) = restoreStep l a"
  by (cases "canvasRef a")
     (simp_all add: restoreStep_def Let_def setExportMode_off_idem setExportMode_off_stopped)

subsection \<open>The live-preview state\<close>

lemma restore_save: "originalVisible s = None \<Longrightarrow> restoreVisible (saveVisible s) = s"
  by (simp add: restoreVisible_def saveVisible_def)

lemma restore_unsaved: "originalVisible s = None \<Longrightarrow> restoreVisible s = s"
  by (simp add: restoreVisible_def)

lemma map_restore_save: "noSaved s \<Longrightarrow> map_option restoreVisible (map_option saveVisible s) = s"
  by (cases s) (simp_all add: noSaved_def restore_save)

lemma map_restore_unsaved: "noSaved s \<Longrightarrow> map_option restoreVisible s = s"
  by (cases s) (simp_all add: noSaved_def restore_unsaved)

lemma cache_reset:
  "b \<noteq> Some True \<Longrightarrow> map_option (\<lambda>_. False) b = b"
  "b \<noteq> Some True \<Longrightarrow> map_option (\<lambda>_. False) (map_option (\<lambda>_. True) b) = b"
  by (cases b; simp)+

lemma livePreview_off:
  assumes "livePreview c"
  shows "setExportMode False c = c"
  using assms
  by (cases c)
     (auto simp: livePreview_def setExportMode_def Let_def map_restore_unsaved cache_reset)

lemma livePreview_on_off:
  assumes "livePreview c"
  shows "setExportMode False (setExportMode True c) = c"
  using assms
  by (cases c)
     (auto simp: livePreview_def setExportMode_def Let_def map_restore_save cache_reset)

lemma livePreview_started:
  assumes "livePreview c"
  shows "tickerStarted (setExportMode True c)"
    and "(setExportMode True c)\<lparr>tickerStarted := True\<rparr> = setExportMode True c"
  using assms by (simp_all add: livePreview_def setExportMode_def Let_def)

lemma ticker_already_started: "tickerStarted x \<Longrightarrow> x\<lparr>tickerStarted := True\<rparr> = x"
  by (cases x) simp

lemma getApp_setExportMode [simp]: "getApp (setExportMode e c) = getApp c"
  by (simp add: getApp_def setExportMode_def Let_def)

lemma getCanvas_setExportMode [simp]: "getCanvas (setExportMode e c) = getCanvas c"
  by (simp add: getCanvas_def setExportMode_def Let_def)

lemma size_setExportMode [simp]:
  "canvasWidth (setExportMode e c) = canvasWidth c"
  "canvasHeight (setExportMode e c) = canvasHeight c"
  by (simp_all add: setExportMode_def Let_def)

subsection \<open>The phases of the try block\<close>

lemma establishes_seq:
  assumes "establishes I f J E" and "establishes J g Q E"
  shows "establishes I (seq f g) Q E"
  unfolding establishes_def
proof (intro allI impI)
  fix r st r'
  assume I: "I r" and s: "seq f g r = (st, r')"
  obtain st1 r1 where f: "f r = (st1, r1)" by (cases "f r")
  show "if st = Running then Q r' else E r'"
  proof (cases "st1 = Running")
    case True
    then have "J r1" using assms(1) I f by (auto simp: establishes_def)
    moreover have "g r1 = (st, r')" using s f True by (simp add: seq_def)
    ultimately show ?thesis using assms(2) by (auto simp: establishes_def)
  next
    case False
    then have "E r1" using assms(1) I f by (auto simp: establishes_def)
    moreover have "st = st1 \<and> r' = r1" using s f False by (cases st1) (simp_all add: seq_def)
    ultimately show ?thesis using False by simp
  qed
qed

lemma loadEngine_before:
  "establishes (beforeExportMode a c) (loadEngine P) (beforeExportMode a c)
     (\<lambda>r. beforeExportMode a c r \<or> inExportMode a c r)"
  by (auto simp: establishes_def loadEngine_def beforeExportMode_def split: if_splits)

lemma checkCanvas_before:
  "establishes (beforeExportMode a c) checkCanvas (beforeExportMode a c)
     (\<lambda>r. beforeExportMode a c r \<or> inExportMode a c r)"
  by (auto simp: establishes_def checkCanvas_def beforeExportMode_def split: option.splits)

lemma enterExportMode_before:
  "establishes (beforeExportMode a c) enterExportMode (inExportMode a c)
     (\<lambda>r. beforeExportMode a c r \<or> inExportMode a c r)"
  by (auto simp: establishes_def enterExportMode_def beforeExportMode_def inExportMode_def)

lemma acquireApp_in:
  assumes "livePreview c"
  shows "establishes (inExportMode a c) acquireApp (inExportMode a c)
     (\<lambda>r. beforeExportMode a c r \<or> inExportMode a c r)"
  using livePreview_started [OF assms]
  by (auto simp: establishes_def acquireApp_def inExportMode_def split: if_splits)

lemma capturePhase_in:
  "establishes (inExportMode a c) (capturePhase P settings) (inExportMode a c)
     (\<lambda>r. beforeExportMode a c r \<or> inExportMode a c r)"
  by (auto simp: establishes_def capturePhase_def inExportMode_def Let_def split: sum.splits)

lemma writePhase_in:
  "establishes (inExportMode a c) (writePhase P settings) (inExportMode a c)
     (\<lambda>r. beforeExportMode a c r \<or> inExportMode a c r)"
  by (auto simp: establishes_def writePhase_def inExportMode_def Let_def split: sum.splits)

lemma encodePhase_in:
  "establishes (inExportMode a c) (encodePhase P settings) (inExportMode a c)
     (\<lambda>r. beforeExportMode a c r \<or> inExportMode a c r)"
  by (auto simp: establishes_def encodePhase_def inExportMode_def Let_def
      split: sum.splits option.splits)

lemma finishPhase_in:
  "establishes (inExportMode a c) (finishPhase P settings) (inExportMode a c)
     (\<lambda>r. beforeExportMode a c r \<or> inExportMode a c r)"
  by (auto simp: establishes_def finishPhase_def inExportMode_def Let_def
      split: sum.splits option.splits)

lemma tryBlock_exit:
  assumes "livePreview c" and "beforeExportMode a c r" and "tryBlock P settings r = (st, r')"
  shows "beforeExportMode a c r' \<or> inExportMode a c r'"
proof -
  have "establishes (beforeExportMode a c) (tryBlock P settings) (inExportMode a c)
     (\<lambda>r. beforeExportMode a c r \<or> inExportMode a c r)"
    unfolding tryBlock_def
    by (rule establishes_seq [OF loadEngine_before
          establishes_seq [OF checkCanvas_before
            establishes_seq [OF enterExportMode_before
              establishes_seq [OF acquireApp_in [OF assms(1)]
                establishes_seq [OF capturePhase_in
                  establishes_seq [OF writePhase_in
                    establishes_seq [OF encodePhase_in finishPhase_in]]]]]]])
  then show ?thesis using assms(2,3) by (auto simp: establishes_def split: if_splits)
qed

lemma catchBlock_exit:
  assumes "beforeExportMode a c r \<or> inExportMode a c r"
  shows "beforeExportMode a c (catchBlock (st, r)) \<or> inExportMode a c (catchBlock (st, r))"
  using assms by (cases st) (auto simp: catchBlock_def beforeExportMode_def inExportMode_def)

lemma finallyBlock_before:
  assumes "livePreview c" and "beforeExportMode a c r"
  shows "canvasRef (state (finallyBlock r)) = Some c"
    and "ExportModeOn \<notin> set (events (finallyBlock r))"
  using assms
  by (auto simp: finallyBlock_def restoreStep_def beforeExportMode_def Let_def livePreview_off)

lemma finallyBlock_in:
  assumes "livePreview c" and "inExportMode a c r"
  shows "canvasRef (state (finallyBlock r)) = Some c"
    and "isPlaying (state (finallyBlock r)) = isPlaying a"
  using assms
  by (auto simp: finallyBlock_def restoreStep_def inExportMode_def Let_def livePreview_on_off)

text \<open>The canvas: a session that starts from the live-preview state ends, on every exit
  path (early return, exception in any phase, success), with the canvas in the state it
  started with: filter chain, visibility of the effects layer, haze and grain, background
  caching, ticker and frame-rate limits. The play state is the one the session started
  with on the paths that have passed \<^verbatim>\<open>wasPlaying = isPlaying\<close>, which follows the switch to
  export mode.\<close>

lemma canvas_restored_on_exit:
  assumes "\<not> exporting a" and "canvasRef a = Some c" and "livePreview c"
  shows "canvasRef (fst (handleExport P settings a)) = Some c
     \<and> (ExportModeOn \<in> set (snd (handleExport P settings a)) \<longrightarrow>
          isPlaying (fst (handleExport P settings a)) = isPlaying a)"
proof -
  let ?init = "\<lparr>locals = \<lparr>wasPlaying = False, wasTickerRunning = False, pixiApp = False\<rparr>,
               state = a\<lparr>exporting := True\<rparr>, frames = [], rawPipelineUsed = False,
               events = []\<rparr>"
  obtain st r1 where t: "tryBlock P settings ?init = (st, r1)" by (cases "tryBlock P settings ?init")
  let ?r = "finallyBlock (catchBlock (st, r1))"
  have h: "handleExport P settings a = (state ?r, events ?r)"
    using assms(1,2) t by (simp add: handleExport_def Let_def)
  have "beforeExportMode a c ?init" using assms(2) by (simp add: beforeExportMode_def)
  then have "beforeExportMode a c r1 \<or> inExportMode a c r1"
    using tryBlock_exit [OF assms(3) _ t] by blast
  then have "beforeExportMode a c (catchBlock (st, r1)) \<or> inExportMode a c (catchBlock (st, r1))"
    by (rule catchBlock_exit)
  then show ?thesis
  proof
    assume "beforeExportMode a c (catchBlock (st, r1))"
    then show ?thesis using finallyBlock_before [OF assms(3)] h by simp
  next
    assume "inExportMode a c (catchBlock (st, r1))"
    then show ?thesis using finallyBlock_in [OF assms(3)] h by simp
  qed
qed

text \<open>The play state on an exit ahead of \<^verbatim>\<open>wasPlaying = isPlaying\<close>: \<^verbatim>\<open>wasPlaying\<close> still has
  its initial value \<^verbatim>\<open>false\<close>, and the \<^verbatim>\<open>finally\<close> block runs \<^verbatim>\<open>setIsPlaying(false)\<close>.\<close>

lemma load_failure_pauses:
  assumes "\<not> exporting a" and "canvasRef a \<noteq> None"
    and "\<not> ffmpegLoaded a" and "\<not> ffmpegLoad P"
  shows "\<not> isPlaying (fst (handleExport P settings a))"
    and "ExportModeOn \<notin> set (snd (handleExport P settings a))"
  using assms
  by (auto simp: handleExport_def tryBlock_def seq_def loadEngine_def catchBlock_def
      finallyBlock_def restoreStep_def Let_def)

lemma missing_canvas_pauses:
  assumes "\<not> exporting a" and "canvasRef a = Some c" and "getCanvas c = None"
    and "ffmpegLoaded a"
  shows "\<not> isPlaying (fst (handleExport P settings a))"
    and "ExportModeOn \<notin> set (snd (handleExport P settings a))"
  using assms
  by (auto simp: handleExport_def tryBlock_def seq_def loadEngine_def checkCanvas_def
      catchBlock_def finallyBlock_def restoreStep_def Let_def)

text \<open>
  C2. The play state is not restored on every exit path. A playing application starts an
  export with the encoder not yet loaded, and the load fails: the session reports the
  error and runs the \<^verbatim>\<open>finally\<close> block without ever having switched to export mode, and the
  application is left paused. The canvas is as it was.
\<close>

theorem play_state_lost_on_early_exit:
  "isPlaying studio
   \<and> snd (handleExport offline defaults studio) = [ToastExportError, ExportModeOff]
   \<and> \<not> isPlaying (fst (handleExport offline defaults studio))
   \<and> canvasRef (fst (handleExport offline defaults studio)) = canvasRef studio"
  by (simp add: handleExport_def tryBlock_def seq_def loadEngine_def catchBlock_def
      finallyBlock_def restoreStep_def setExportMode_def restoreVisible_def Let_def
      studio_def previewCanvas_def offline_def onePixel_def)

section \<open>A failed extraction fails the session\<close>

lemma captureBatches_all_ok:
  "captureBatches task fc bs bl acc = Inr fs \<Longrightarrow> b \<in> set bl \<Longrightarrow>
     b * bs \<le> i \<Longrightarrow> i < min (b * bs + bs) fc \<Longrightarrow> \<not> isl (task i)"
proof (induction bl arbitrary: acc)
  case Nil
  then show ?case by simp
next
  case (Cons b' bl)
  let ?s = "b' * bs"
  let ?e = "min (?s + bs) fc"
  from Cons.prems(1) obtain rs where
    rs: "promiseAll (map (\<lambda>k. task (?s + k)) [0..<?e - ?s]) = Inr rs"
    and rest: "captureBatches task fc bs bl (reclaim b' bs (acc @ rs)) = Inr fs"
    by (auto simp: Let_def split: sum.splits)
  show ?case
  proof (cases "b = b'")
    case True
    from rs have eq: "map (\<lambda>k. task (?s + k)) [0..<?e - ?s] = map Inr rs"
      by (rule promiseAll_InrD)
    have k: "i - ?s < ?e - ?s" using Cons.prems(3,4) unfolding True by linarith
    have "length rs = ?e - ?s" using arg_cong [OF eq, of length] by simp
    moreover have "map (\<lambda>k. task (?s + k)) [0..<?e - ?s] ! (i - ?s) = map Inr rs ! (i - ?s)"
      using eq by simp
    ultimately have "task (?s + (i - ?s)) = Inr (rs ! (i - ?s))" using k by simp
    moreover have "?s + (i - ?s) = i" using Cons.prems(3) unfolding True by linarith
    ultimately show ?thesis by simp
  next
    case False
    then have "b \<in> set bl" using Cons.prems(2) by simp
    then show ?thesis using Cons.IH [OF rest _ Cons.prems(3,4)] by blast
  qed
qed

lemma captureStage_fails:
  assumes "0 < frameCaptureSize config" and "i < fc"
    and "isl (captureFrame P config aw ah (exportDim aw config) (exportDim ah config) i)"
  shows "isl (captureStage P config aw ah fc)"
proof (rule ccontr)
  let ?task = "captureFrame P config aw ah (exportDim aw config) (exportDim ah config)"
  let ?bs = "min (frameCaptureSize config) fc"
  assume "\<not> isl (captureStage P config aw ah fc)"
  then obtain fs where "captureAll ?task (frameCaptureSize config) fc = Inr fs"
    by (auto simp: captureStage_def Let_def split: sum.splits)
  then have run: "captureBatches ?task fc ?bs [0..<ceilDiv fc ?bs] [] = Inr fs"
    by (simp add: captureAll_def Let_def)
  have bs: "0 < ?bs" using assms(1,2) by simp
  have "i < ceilDiv fc ?bs * ?bs" using ceilDiv_covers [OF bs, of fc] assms(2) by simp
  then have "i div ?bs < ceilDiv fc ?bs" using bs by (simp add: less_mult_imp_div_less)
  then have b: "i div ?bs \<in> set [0..<ceilDiv fc ?bs]" by simp
  have lo: "i div ?bs * ?bs \<le> i" by simp
  have "i < i div ?bs * ?bs + ?bs"
    using dividend_less_div_times [OF bs, of i] by (simp add: add.commute)
  then have hi: "i < min (i div ?bs * ?bs + ?bs) fc" using assms(2) by simp
  from captureBatches_all_ok [OF run b lo hi] assms(3) show False by simp
qed

lemma frameCaptureSize_positive: "0 < frameCaptureSize (exportConfig q)"
  by (simp add: exportConfig_def fast_def balanced_def quality_def)

lemma capture_failure_session:
  assumes "\<not> exporting a" and "canvasRef a = Some c" and "appPresent c" and "livePreview c"
    and "ffmpegLoaded a \<or> ffmpegLoad P"
    and "i < duration settings * frameRate (exportConfig (exportQuality settings))"
    and "isl (captureFrame P (exportConfig (exportQuality settings))
                (canvasWidth c) (canvasHeight c)
                (exportDim (canvasWidth c) (exportConfig (exportQuality settings)))
                (exportDim (canvasHeight c) (exportConfig (exportQuality settings))) i)"
  shows "handleExport P settings a =
           (a\<lparr>exporting := True, ffmpegLoaded := True\<rparr>,
            (if ffmpegLoaded a then [] else [ToastInfo])
              @ [ExportModeOn, ToastExportError, ExportModeOff])"
proof -
  let ?config = "exportConfig (exportQuality settings)"
  have "isl (captureStage P ?config (canvasWidth c) (canvasHeight c)
               (duration settings * frameRate ?config))"
    using frameCaptureSize_positive assms(6,7) by (rule captureStage_fails)
  then obtain e where cap: "captureStage P ?config (canvasWidth c) (canvasHeight c)
               (duration settings * frameRate ?config) = Inl e"
    by (cases "captureStage P ?config (canvasWidth c) (canvasHeight c)
               (duration settings * frameRate ?config)") simp_all
  have on: "setExportMode False (setExportMode True c) = c"
    using assms(4) by (rule livePreview_on_off)
  note st = livePreview_started [OF assms(4)]
  show ?thesis
    using assms(1,2,3,5) cap on st
    by (cases a)
       (auto simp: handleExport_def tryBlock_def seq_def loadEngine_def checkCanvas_def
          enterExportMode_def acquireApp_def capturePhase_def catchBlock_def finallyBlock_def
          restoreStep_def getCanvas_def getApp_def Let_def ticker_already_started)
qed

text \<open>
  C5, amended. When the extraction of a frame of the range fails in a session that started
  from the live-preview state, the session fails as a whole: the encoder is never invoked,
  no video is published and no file is left, no success is announced; the canvas and the
  play state are restored to what they were; and the error toast of the \<^verbatim>\<open>catch\<close> block
  comes ahead of the restoration in the \<^verbatim>\<open>finally\<close> block.
\<close>

theorem extraction_failure_fails_session:
  assumes "\<not> exporting a" and "canvasRef a = Some c" and "appPresent c" and "livePreview c"
    and "ffmpegLoaded a \<or> ffmpegLoad P"
    and "i < duration settings * frameRate (exportConfig (exportQuality settings))"
    and "isl (captureFrame P (exportConfig (exportQuality settings))
                (canvasWidth c) (canvasHeight c)
                (exportDim (canvasWidth c) (exportConfig (exportQuality settings)))
                (exportDim (canvasHeight c) (exportConfig (exportQuality settings))) i)"
  shows "(\<forall>args. Exec args \<notin> set (snd (handleExport P settings a)))
     \<and> ToastSuccess \<notin> set (snd (handleExport P settings a))
     \<and> exportedVideoBlob (fst (handleExport P settings a)) = exportedVideoBlob a
     \<and> fsFiles (fst (handleExport P settings a)) = fsFiles a
     \<and> canvasRef (fst (handleExport P settings a)) = Some c
     \<and> isPlaying (fst (handleExport P settings a)) = isPlaying a
     \<and> occursBefore ToastExportError ExportModeOff (snd (handleExport P settings a))"
  using assms(2)
  by (simp add: capture_failure_session [OF assms] occursBefore_def)

lemma captureFrame_surfaceLost:
  "isl (captureFrame surfaceLost balanced aw ah ew eh 5)"
  by (simp add: captureFrame_def extractFramePixels_def surfaceLost_def onePixel_def)

lemma livePreview_previewCanvas: "livePreview previewCanvas"
  by (simp add: livePreview_def previewCanvas_def noSaved_def)

lemma surfaceLost_session:
  "handleExport surfaceLost defaults studio =
     (studio\<lparr>exporting := True, ffmpegLoaded := True\<rparr>,
      [ToastInfo, ExportModeOn, ToastExportError, ExportModeOff])"
proof -
  have c: "exportConfig (exportQuality defaults) = balanced"
    by (simp add: defaults_def exportConfig_def)
  have "handleExport surfaceLost defaults studio =
           (studio\<lparr>exporting := True, ffmpegLoaded := True\<rparr>,
            (if ffmpegLoaded studio then [] else [ToastInfo])
              @ [ExportModeOn, ToastExportError, ExportModeOff])"
  proof (rule capture_failure_session [where c = previewCanvas and i = 5])
    show "\<not> exporting studio" by (simp add: studio_def)
    show "canvasRef studio = Some previewCanvas" by (simp add: studio_def)
    show "appPresent previewCanvas" by (simp add: previewCanvas_def)
    show "livePreview previewCanvas" by (rule livePreview_previewCanvas)
    show "ffmpegLoaded studio \<or> ffmpegLoad surfaceLost"
      by (simp add: surfaceLost_def onePixel_def)
    show "5 < duration defaults * frameRate (exportConfig (exportQuality defaults))"
      by (simp add: c) (simp add: defaults_def balanced_def)
    show "isl (captureFrame surfaceLost (exportConfig (exportQuality defaults))
                (canvasWidth previewCanvas) (canvasHeight previewCanvas)
                (exportDim (canvasWidth previewCanvas) (exportConfig (exportQuality defaults)))
                (exportDim (canvasHeight previewCanvas) (exportConfig (exportQuality defaults))) 5)"
      unfolding c by (rule captureFrame_surfaceLost)
  qed
  then show ?thesis by (simp add: studio_def)
qed

text \<open>
  C5, as stated, fails on the order: when the extraction of frame 5 fails, the failure is
  reported first and the export mode is switched off afterwards.
\<close>

theorem report_precedes_restore_counterexample:
  "snd (handleExport surfaceLost defaults studio)
     = [ToastInfo, ExportModeOn, ToastExportError, ExportModeOff]
   \<and> \<not> occursBefore ExportModeOff ToastExportError (snd (handleExport surfaceLost defaults studio))"
  by (simp add: surfaceLost_session occursBefore_def)

theorem extraction_failure_fails_session_witness:
  "(\<forall>args. Exec args \<notin> set (snd (handleExport surfaceLost defaults studio)))
     \<and> ToastSuccess \<notin> set (snd (handleExport surfaceLost defaults studio))
     \<and> exportedVideoBlob (fst (handleExport surfaceLost defaults studio)) = exportedVideoBlob studio
     \<and> fsFiles (fst (handleExport surfaceLost defaults studio)) = fsFiles studio
     \<and> canvasRef (fst (handleExport surfaceLost defaults studio)) = Some previewCanvas
     \<and> isPlaying (fst (handleExport surfaceLost defaults studio)) = isPlaying studio
     \<and> occursBefore ToastExportError ExportModeOff (snd (handleExport surfaceLost defaults studio))"
proof -
  have c: "exportConfig (exportQuality defaults) = balanced"
    by (simp add: defaults_def exportConfig_def)
  have h1: "\<not> exporting studio" by (simp add: studio_def)
  have h2: "canvasRef studio = Some previewCanvas" by (simp add: studio_def)
  have h3: "appPresent previewCanvas" by (simp add: previewCanvas_def)
  have h5: "ffmpegLoaded studio \<or> ffmpegLoad surfaceLost"
    by (simp add: surfaceLost_def onePixel_def)
  have h6: "5 < duration defaults * frameRate (exportConfig (exportQuality defaults))"
    by (simp add: c) (simp add: defaults_def balanced_def)
  have h7: "isl (captureFrame surfaceLost (exportConfig (exportQuality defaults))
                (canvasWidth previewCanvas) (canvasHeight previewCanvas)
                (exportDim (canvasWidth previewCanvas) (exportConfig (exportQuality defaults)))
                (exportDim (canvasHeight previewCanvas) (exportConfig (exportQuality defaults))) 5)"
    unfolding c by (rule captureFrame_surfaceLost)
  show ?thesis
    by (rule extraction_failure_fails_session [OF h1 h2 h3 livePreview_previewCanvas h5 h6 h7])
qed

end
